theory Spec2Isabelle
  imports Complex_Main
begin

section \<open>Python values used by the bot\<close>

text \<open>
  The bodies returned by the rewards service are JSON documents. Numbers are kept as
  integers (the epoch-millisecond and amount fields of the service); Python's
  \<^verbatim>\<open>dict\<close> is an association list read with \<open>map_of\<close>.
\<close>

datatype json =
    JNull
  | JBool bool
  | JInt int
  | JStr string
  | JArr "json list"
  | JObj "(string \<times> json) list"

type_synonym py_dict = "(string \<times> json) list"

text \<open>Truth value of a Python object, as \<^verbatim>\<open>if x:\<close> takes it.\<close>

fun truthy :: "json \<Rightarrow> bool" where
  "truthy JNull = False"
| "truthy (JBool b) = b"
| "truthy (JInt n) = (n \<noteq> 0)"
| "truthy (JStr s) = (s \<noteq> [])"
| "truthy (JArr xs) = (xs \<noteq> [])"
| "truthy (JObj kvs) = (kvs \<noteq> [])"

text \<open>\<^verbatim>\<open>d.get(k, dflt)\<close>, \<^verbatim>\<open>d.get(k)\<close> (default \<^verbatim>\<open>None\<close>) and \<^verbatim>\<open>k in d\<close>.\<close>

definition dict_get :: "py_dict \<Rightarrow> string \<Rightarrow> json \<Rightarrow> json" where
  "dict_get d k dflt = (case map_of d k of Some v \<Rightarrow> v | None \<Rightarrow> dflt)"

definition dict_has :: "py_dict \<Rightarrow> string \<Rightarrow> bool" where
  "dict_has d k = (case map_of d k of Some v \<Rightarrow> True | None \<Rightarrow> False)"

fun isinstance_bool :: "json \<Rightarrow> bool" where
  "isinstance_bool (JBool b) = True"
| "isinstance_bool v = False"

text \<open>
  A number in a comparison or a subtraction: \<^verbatim>\<open>bool\<close> is a subclass of \<^verbatim>\<open>int\<close>,
  every other kind of value raises \<^verbatim>\<open>TypeError\<close> (the result \<open>None\<close>).
\<close>

fun py_num :: "json \<Rightarrow> int option" where
  "py_num (JInt n) = Some n"
| "py_num (JBool b) = Some (if b then 1 else 0)"
| "py_num v = None"

text \<open>
  \<^verbatim>\<open>random.uniform(a, b)\<close> is \<^verbatim>\<open>a + (b - a) * random()\<close>; the sample \<open>u\<close> of
  \<^verbatim>\<open>random()\<close> is an input of the model. Floats are taken as reals.
\<close>

definition random_uniform :: "real \<Rightarrow> real \<Rightarrow> real \<Rightarrow> real" where
  "random_uniform a b u = a + (b - a) * u"

text \<open>\<^verbatim>\<open>int(x)\<close> on a float truncates towards zero.\<close>

definition py_int :: "real \<Rightarrow> int" where
  "py_int x = (if 0 \<le> x then \<lfloor>x\<rfloor> else \<lceil>x\<rceil>)"

section \<open>The remote client\<close>

text \<open>
  \<^verbatim>\<open>make_api_request\<close> returns a body (a dictionary, or \<^verbatim>\<open>None\<close>) and a status
  code (or \<^verbatim>\<open>None\<close> when the transport failed). Its result is an input of the model.
\<close>

type_synonym api_response = "py_dict option \<times> int option"

text \<open>
  The human message of a remote operation. Each constructor is one of the texts built in
  the source, carrying the values interpolated into it.
\<close>

datatype api_msg =
    Msg_unknown_response
  | Msg_from_server json
  | Msg_gagal json "int option"
  | Msg_error_api json
  | Msg_too_early
  | Msg_empty_response
  | Msg_unverified api_msg

definition api_check_claimable :: "api_response \<Rightarrow> json option \<times> api_msg \<times> int option" where
  "api_check_claimable r =
     (let status_code_response = snd r in
      case fst r of
        None \<Rightarrow> (None, Msg_unknown_response, status_code_response)
      | Some data_wrapper \<Rightarrow>
          if data_wrapper = [] then (None, Msg_unknown_response, status_code_response)
          else if status_code_response = Some 200 \<and> dict_has data_wrapper ''data'' then
            (Some (dict_get data_wrapper ''data'' JNull),
             Msg_from_server (dict_get data_wrapper ''message''
                (JStr ''Status klaim berhasil diperiksa.'')),
             status_code_response)
          else if dict_has data_wrapper ''message'' then
            (None, Msg_gagal (dict_get data_wrapper ''message'' JNull) status_code_response,
             status_code_response)
          else if dict_has data_wrapper ''error_message'' then
            (None, Msg_error_api (dict_get data_wrapper ''error_message'' JNull),
             status_code_response)
          else (None, Msg_unknown_response, status_code_response))"

definition api_claim_airdrop :: "api_response \<Rightarrow> py_dict option \<times> api_msg \<times> int option" where
  "api_claim_airdrop r =
     (let status_code_response = snd r in
      case fst r of
        None \<Rightarrow> (None, Msg_unknown_response, status_code_response)
      | Some response_data_dict \<Rightarrow>
          if response_data_dict = [] then
            (Some response_data_dict, Msg_unknown_response, status_code_response)
          else if status_code_response = Some 200 \<and> dict_has response_data_dict ''data''
                  \<and> isinstance_bool (dict_get response_data_dict ''data'' JNull) then
            (Some response_data_dict,
             Msg_from_server (dict_get response_data_dict ''message''
                (JStr ''Proses klaim selesai.'')),
             status_code_response)
          else if status_code_response = Some 400
                  \<and> dict_get response_data_dict ''message'' JNull = JStr ''TOKEN_CLAIM_TOO_EARLY'' then
            (Some response_data_dict, Msg_too_early, status_code_response)
          else if dict_has response_data_dict ''message'' then
            (Some response_data_dict,
             Msg_gagal (dict_get response_data_dict ''message'' JNull) status_code_response,
             status_code_response)
          else if dict_has response_data_dict ''error_message'' then
            (Some response_data_dict,
             Msg_error_api (dict_get response_data_dict ''error_message'' JNull),
             status_code_response)
          else if status_code_response = Some 200
                  \<and> dict_get response_data_dict ''message'' JNull = JStr ''Respons kosong dari server.''
                  \<and> dict_get response_data_dict ''data_from_api'' JNull = JNull
                  \<and> \<not> dict_has response_data_dict ''data'' then
            (Some response_data_dict, Msg_empty_response, status_code_response)
          else (Some response_data_dict, Msg_unknown_response, status_code_response))"

section \<open>Persisted data and process state\<close>

text \<open>
  The user record written by \<^verbatim>\<open>save_user_data\<close>: the bot itself stores only the
  keys \<^verbatim>\<open>auth_token\<close> and \<^verbatim>\<open>auto_claim_active\<close>; a key that is absent is \<open>None\<close>.
\<close>

record user_data =
  auth_token :: "string option"
  auto_claim_active :: "bool option"

definition empty_user_data :: user_data where
  "empty_user_data = \<lparr>auth_token = None, auto_claim_active = None\<rparr>"

text \<open>\<^verbatim>\<open>not auth_token\<close> and \<^verbatim>\<open>user_data.get("auto_claim_active", False)\<close>.\<close>

definition token_missing :: "string option \<Rightarrow> bool" where
  "token_missing t = (case t of None \<Rightarrow> True | Some s \<Rightarrow> s = [])"

definition is_active :: "user_data \<Rightarrow> bool" where
  "is_active d = (case auto_claim_active d of None \<Rightarrow> False | Some b \<Rightarrow> b)"

record history_entry =
  timestamp :: string
  success :: bool
  message :: api_msg
  claimed_silver :: int
  claimed_gold :: int
  claimed_diamond :: int
  total_silver_after :: int
  total_gold_after :: int
  total_diamond_after :: int

text \<open>
  The messages the bot sends. Each constructor is one \<^verbatim>\<open>send_message\<close> or
  \<^verbatim>\<open>edit_or_send_message\<close> call of the source with the values it interpolates; chat
  actions (the typing indicator) are not messages and are left out.
\<close>

datatype notification =
    N_stopped_token_missing
  | N_stopped_token_invalid_check
  | N_token_info_failed
  | N_claim_detected
  | N_claim_success "(string \<times> int) list" api_msg
  | N_claim_failed api_msg
  | N_stopped_token_invalid_claim
  | N_cycle_done int
  | N_next_claim int int int
  | N_schedule_unknown int
  | N_check_failed api_msg int
  | N_rate_limited int
  | N_stopped_config_error
  | N_unexpected_error
  | R_token_not_set
  | R_initial_balance_failed api_msg
  | R_processing
  | R_claim_result api_msg bool "(string \<times> int) list"
  | R_check_balance_hint
  | R_history_empty
  | R_history "(nat \<times> history_entry) list" "nat option"
  | R_start_token_not_set
  | R_already_active
  | R_activated
  | R_not_active
  | R_deactivated

text \<open>
  An asyncio task created for a user. The registry \<^verbatim>\<open>AUTO_CLAIM_TASKS\<close> refers to
  task objects; here the objects live in the list \<open>tasks\<close> and the registry holds their
  positions, so that a task that ends is seen as done through the registry too.
\<close>

record task =
  task_user :: nat
  task_done :: bool

record world =
  user_data_files :: "nat \<Rightarrow> user_data option"
  claim_history_files :: "nat \<Rightarrow> history_entry list option"
  AUTO_CLAIM_TASKS :: "nat \<Rightarrow> nat option"
  LAST_LONG_WAIT_NOTIFICATION :: "nat \<Rightarrow> real option"
  tasks :: "task list"
  outbox :: "(nat \<times> notification) list"

definition load_user_data :: "world \<Rightarrow> nat \<Rightarrow> user_data" where
  "load_user_data w user_id =
     (case user_data_files w user_id of None \<Rightarrow> empty_user_data | Some d \<Rightarrow> d)"

definition save_user_data :: "nat \<Rightarrow> user_data \<Rightarrow> world \<Rightarrow> world" where
  "save_user_data user_id d w = w\<lparr>user_data_files := (user_data_files w)(user_id \<mapsto> d)\<rparr>"

definition load_claim_history :: "world \<Rightarrow> nat \<Rightarrow> history_entry list" where
  "load_claim_history w user_id =
     (case claim_history_files w user_id of None \<Rightarrow> [] | Some h \<Rightarrow> h)"

definition save_claim_history :: "nat \<Rightarrow> history_entry list \<Rightarrow> world \<Rightarrow> world" where
  "save_claim_history user_id h w =
     w\<lparr>claim_history_files := (claim_history_files w)(user_id \<mapsto> h)\<rparr>"

definition get_auth_token :: "world \<Rightarrow> nat \<Rightarrow> string option" where
  "get_auth_token w user_id = auth_token (load_user_data w user_id)"

definition send_message :: "world \<Rightarrow> nat \<Rightarrow> notification \<Rightarrow> world" where
  "send_message w chat_id n = w\<lparr>outbox := outbox w @ [(chat_id, n)]\<rparr>"

text \<open>The three statements load, append, save that follow every claim attempt.\<close>

definition append_claim_history :: "nat \<Rightarrow> history_entry \<Rightarrow> world \<Rightarrow> world" where
  "append_claim_history user_id entry w =
     save_claim_history user_id (load_claim_history w user_id @ [entry]) w"

section \<open>One claim attempt\<close>

text \<open>
  The balances payload returned by \<^verbatim>\<open>api_get_token_info\<close> (a dictionary of integer
  amounts, or \<^verbatim>\<open>None\<close>) with its message is an input of the model.
\<close>

type_synonym balances = "(string \<times> int) list"

definition balances_truthy :: "balances option \<Rightarrow> bool" where
  "balances_truthy p = (case p of None \<Rightarrow> False | Some d \<Rightarrow> d \<noteq> [])"

definition get_amount :: "balances option \<Rightarrow> string \<Rightarrow> int \<Rightarrow> int" where
  "get_amount p k dflt =
     (case p of None \<Rightarrow> dflt
      | Some d \<Rightarrow> (case map_of d k of None \<Rightarrow> dflt | Some v \<Rightarrow> v))"

text \<open>
  What one iteration, or one manual claim, receives from outside: the samples of
  \<^verbatim>\<open>random()\<close> in the order of the calls, the results of the remote operations, and
  the clock readings.
\<close>

record env =
  rnd :: "nat \<Rightarrow> real"
  check_api_result :: api_response
  tokens_before_result :: "balances option \<times> api_msg"
  claim_api_result :: api_response
  tokens_after_result :: "balances option \<times> api_msg"
  time_ms :: int
  time_now :: real
  now_wib :: string

record claim_result =
  claim_successful :: bool
  claimed_s :: int
  claimed_g :: int
  claimed_d :: int
  message_from_api_call :: api_msg
  status_code :: "int option"
  history_entry_built :: history_entry

text \<open>
  Lines 483 to 521 of \<^verbatim>\<open>core_claim_action\<close>, which lines 639 to 677 of
  \<^verbatim>\<open>auto_claim_task_function\<close> repeat with renamed variables: submit the claim,
  decide success, read the balances again, build the history entry.
\<close>

definition perform_claim :: "int \<Rightarrow> int \<Rightarrow> int \<Rightarrow> env \<Rightarrow> claim_result" where
  "perform_claim s_before g_before d_before e =
     (let (claim_api_response, msg0, status) = api_claim_airdrop (claim_api_result e);
          successful =
            (case claim_api_response of
               None \<Rightarrow> False
             | Some d \<Rightarrow> d \<noteq> [] \<and> (case dict_get d ''data'' JNull of JBool b \<Rightarrow> b | _ \<Rightarrow> False));
          tokens_after_payload = (if successful then fst (tokens_after_result e) else None);
          verified = (successful \<and> balances_truthy tokens_after_payload);
          cs = (if verified
                then get_amount tokens_after_payload ''interlinkSilverTokenAmount'' 0 - s_before
                else 0);
          cg = (if verified
                then get_amount tokens_after_payload ''interlinkGoldTokenAmount'' 0 - g_before
                else 0);
          cd = (if verified
                then get_amount tokens_after_payload ''interlinkDiamondTokenAmount'' 0 - d_before
                else 0);
          msg = (if successful \<and> \<not> balances_truthy tokens_after_payload
                 then Msg_unverified msg0 else msg0)
      in \<lparr>claim_successful = successful,
          claimed_s = cs, claimed_g = cg, claimed_d = cd,
          message_from_api_call = msg,
          status_code = status,
          history_entry_built =
            \<lparr>timestamp = now_wib e,
             success = successful,
             message = msg,
             claimed_silver = (if successful then cs else 0),
             claimed_gold = (if successful then cg else 0),
             claimed_diamond = (if successful then cd else 0),
             total_silver_after =
               (if balances_truthy tokens_after_payload
                then get_amount tokens_after_payload ''interlinkSilverTokenAmount'' s_before
                else s_before),
             total_gold_after =
               (if balances_truthy tokens_after_payload
                then get_amount tokens_after_payload ''interlinkGoldTokenAmount'' g_before
                else g_before),
             total_diamond_after =
               (if balances_truthy tokens_after_payload
                then get_amount tokens_after_payload ''interlinkDiamondTokenAmount'' d_before
                else d_before)\<rparr>\<rparr>)"

text \<open>The amounts listed in a success message: only those above zero.\<close>

definition gained_parts :: "int \<Rightarrow> int \<Rightarrow> int \<Rightarrow> (string \<times> int) list" where
  "gained_parts s g d =
     (if s > 0 then [(''Silver'', s)] else []) @
     (if g > 0 then [(''Gold'', g)] else []) @
     (if d > 0 then [(''Diamond'', d)] else [])"

definition core_claim_action :: "nat \<Rightarrow> nat \<Rightarrow> env \<Rightarrow> world \<Rightarrow> world" where
  "core_claim_action user_id chat_id e w =
     (if token_missing (get_auth_token w user_id) then send_message w chat_id R_token_not_set
      else
        let (tokens_before_payload, msg_before) = tokens_before_result e in
        if \<not> balances_truthy tokens_before_payload
        then send_message w chat_id (R_initial_balance_failed msg_before)
        else
          let s_before = get_amount tokens_before_payload ''interlinkSilverTokenAmount'' 0;
              g_before = get_amount tokens_before_payload ''interlinkGoldTokenAmount'' 0;
              d_before = get_amount tokens_before_payload ''interlinkDiamondTokenAmount'' 0;
              w1 = send_message w chat_id R_processing;
              r = perform_claim s_before g_before d_before e;
              w2 = append_claim_history user_id (history_entry_built r) w1;
              w3 = send_message w2 chat_id
                     (R_claim_result (message_from_api_call r) (claim_successful r)
                        (gained_parts (claimed_s r) (claimed_g r) (claimed_d r)))
          in if claim_successful r then send_message w3 chat_id R_check_balance_hint else w3)"

text \<open>
  \<^verbatim>\<open>core_history_action\<close>: the entries of \<^verbatim>\<open>reversed(user_history[-10:])\<close>, each
  with the transaction number printed beside it, and the footer shown when the history
  holds more than ten entries.
\<close>

definition last_ten :: "'a list \<Rightarrow> 'a list" where
  "last_ten xs = drop (length xs - 10) xs"

definition history_shown :: "history_entry list \<Rightarrow> (nat \<times> history_entry) list" where
  "history_shown user_history =
     map (\<lambda>(entry_idx, entry). (length user_history - entry_idx, entry))
         (enumerate 0 (rev (last_ten user_history)))"

definition core_history_action :: "nat \<Rightarrow> nat \<Rightarrow> world \<Rightarrow> world" where
  "core_history_action user_id chat_id w =
     (let user_history = load_claim_history w user_id in
      if user_history = [] then send_message w chat_id R_history_empty
      else send_message w chat_id
             (R_history (history_shown user_history)
                (if length user_history > 10 then Some (length user_history) else None)))"

section \<open>The scheduler loop\<close>

text \<open>
  How one pass through the body of the \<^verbatim>\<open>while\<close> loop ends: \<^verbatim>\<open>break\<close>; the
  \<^verbatim>\<open>continue\<close> of line 629, taken after a sleep of its own and without reloading the
  user record; or the end of the body, where the task sleeps for the given number of
  seconds and reloads the user record.
\<close>

datatype ctl = Break | Continue real | Fallthrough real

text \<open>
  The exceptions the body can raise: the \<^verbatim>\<open>ValueError\<close> of line 610, and the
  \<^verbatim>\<open>AttributeError\<close> or \<^verbatim>\<open>TypeError\<close> of a payload of the wrong kind, which the
  handler of \<^verbatim>\<open>Exception\<close> takes. \<^verbatim>\<open>make_api_request\<close> never lets an
  \<^verbatim>\<open>HTTPStatusError\<close> out, so that handler is not modelled.
\<close>

datatype exn = ValueError | Other_exception

definition deactivate :: "nat \<Rightarrow> user_data \<Rightarrow> world \<Rightarrow> world" where
  "deactivate user_id d w = save_user_data user_id (d\<lparr>auto_claim_active := Some False\<rparr>) w"

text \<open>
  Lines 621 to 707: a claim is available. Sample 1 of the pass goes to the pause of line
  628 or to the pause of line 636 (whose length plays no part), sample 2 to the sleep
  that ends the pass.
\<close>

definition claim_branch :: "nat \<Rightarrow> env \<Rightarrow> user_data \<Rightarrow> world \<Rightarrow> world \<times> (exn + ctl)" where
  "claim_branch user_id e d w =
     (let (tokens_before_payload_auto, msg_before_auto) = tokens_before_result e in
      if \<not> balances_truthy tokens_before_payload_auto
      then (send_message w user_id N_token_info_failed,
            Inr (Continue (random_uniform (3*60) (7*60) (rnd e 1))))
      else
        let s_before_auto = get_amount tokens_before_payload_auto ''interlinkSilverTokenAmount'' 0;
            g_before_auto = get_amount tokens_before_payload_auto ''interlinkGoldTokenAmount'' 0;
            d_before_auto = get_amount tokens_before_payload_auto ''interlinkDiamondTokenAmount'' 0;
            w1 = send_message w user_id N_claim_detected;
            r = perform_claim s_before_auto g_before_auto d_before_auto e;
            w2 = append_claim_history user_id (history_entry_built r) w1;
            sleep_after_action_sec = random_uniform (5*60) (10*60) (rnd e 2);
            finish = (\<lambda>w'. (send_message w' user_id
                                (N_cycle_done (py_int (sleep_after_action_sec / 60))),
                             Inr (Fallthrough sleep_after_action_sec)))
        in if claim_successful r
           then finish (send_message w2 user_id
                          (N_claim_success (gained_parts (claimed_s r) (claimed_g r) (claimed_d r))
                             (message_from_api_call r)))
           else
             let w3 = send_message w2 user_id (N_claim_failed (message_from_api_call r)) in
             if status_code r = Some 401
             then (deactivate user_id d (send_message w3 user_id N_stopped_token_invalid_claim),
                   Inr Break)
             else finish w3)"

text \<open>Lines 709 to 741: the check succeeded and no claim is available.\<close>

definition wait_branch ::
  "nat \<Rightarrow> env \<Rightarrow> real \<Rightarrow> py_dict \<Rightarrow> world \<Rightarrow> world \<times> (exn + ctl)" where
  "wait_branch user_id e sleep0 claim_status_payload w =
     (case py_num (dict_get claim_status_payload ''nextFrame'' (JInt 0)) of
        None \<Rightarrow> (w, Inl Other_exception)
      | Some next_frame_ms \<Rightarrow>
          if next_frame_ms > 0 then
            let current_time_ms = time_ms e;
                wait_time_ms = next_frame_ms - current_time_ms;
                wait_time_sec = max 0 (real_of_int wait_time_ms / 1000)
            in if wait_time_sec > 0 then
                 let wait_hours = py_int wait_time_sec div 3600;
                     rem_secs = py_int wait_time_sec mod 3600;
                     wait_mins = rem_secs div 60;
                     wait_secs_final = rem_secs mod 60;
                     current_time_for_notification = time_now e;
                     last_notif_time =
                       (case LAST_LONG_WAIT_NOTIFICATION w user_id of None \<Rightarrow> 0 | Some t \<Rightarrow> t);
                     (notify_user, sleep_after_action_sec) =
                       (if wait_time_sec > 60 * 60 * 1
                        then (current_time_for_notification - last_notif_time > 2 * 3600,
                              random_uniform (25*60) (35*60) (rnd e 1))
                        else if wait_time_sec > 15 * 60
                        then (current_time_for_notification - last_notif_time > 45 * 60,
                              random_uniform (5*60) (10*60) (rnd e 1))
                        else (True, wait_time_sec + random_uniform 10 45 (rnd e 1)));
                     w' = (if notify_user
                           then (send_message w user_id
                                   (N_next_claim wait_hours wait_mins wait_secs_final))
                                \<lparr>LAST_LONG_WAIT_NOTIFICATION :=
                                   (LAST_LONG_WAIT_NOTIFICATION w)
                                     (user_id \<mapsto> current_time_for_notification)\<rparr>
                           else w)
                 in (w', Inr (Fallthrough sleep_after_action_sec))
               else (w, Inr (Fallthrough (random_uniform 30 90 (rnd e 1))))
          else (send_message w user_id (N_schedule_unknown (py_int (sleep0 / 60))),
                Inr (Fallthrough sleep0)))"

text \<open>Lines 742 to 748: the check gave no payload.\<close>

definition fail_branch ::
  "nat \<Rightarrow> env \<Rightarrow> real \<Rightarrow> api_msg \<Rightarrow> int option \<Rightarrow> world \<Rightarrow> world \<times> (exn + ctl)" where
  "fail_branch user_id e sleep0 msg_claim_stat status_code_check w =
     (let w1 = send_message w user_id (N_check_failed msg_claim_stat (py_int (sleep0 / 60))) in
      if status_code_check = Some 429 then
        let sleep_after_action_sec = random_uniform (45*60) (75*60) (rnd e 1) in
        (send_message w1 user_id (N_rate_limited (py_int (sleep_after_action_sec / 60))),
         Inr (Fallthrough sleep_after_action_sec))
      else (w1, Inr (Fallthrough sleep0)))"

text \<open>The \<^verbatim>\<open>try\<close> block, lines 607 to 748.\<close>

definition iteration_body ::
  "nat \<Rightarrow> env \<Rightarrow> user_data \<Rightarrow> real \<Rightarrow> world \<Rightarrow> world \<times> (exn + ctl)" where
  "iteration_body user_id e d sleep0 w =
     (let current_auth_token = get_auth_token w user_id in
      if token_missing current_auth_token then (w, Inl ValueError)
      else
        let (claim_status_payload, msg_claim_stat, status_code_check) =
              api_check_claimable (check_api_result e)
        in if status_code_check = Some 401
           then (deactivate user_id d (send_message w user_id N_stopped_token_invalid_check),
                 Inr Break)
           else
             (case claim_status_payload of
                None \<Rightarrow> fail_branch user_id e sleep0 msg_claim_stat status_code_check w
              | Some p \<Rightarrow>
                  if \<not> truthy p
                  then fail_branch user_id e sleep0 msg_claim_stat status_code_check w
                  else
                    (case p of
                       JObj kvs \<Rightarrow>
                         if truthy (dict_get kvs ''isClaimable'' JNull)
                         then claim_branch user_id e d w
                         else wait_branch user_id e sleep0 kvs w
                     | _ \<Rightarrow> (w, Inl Other_exception))))"

text \<open>One pass through the loop body, lines 605 to 771, with its exception handlers.\<close>

definition iteration :: "nat \<Rightarrow> env \<Rightarrow> user_data \<Rightarrow> world \<Rightarrow> world \<times> ctl" where
  "iteration user_id e d w =
     (let sleep_after_action_sec = random_uniform (5*60) (10*60) (rnd e 0) in
      case iteration_body user_id e d sleep_after_action_sec w of
        (w', Inr c) \<Rightarrow> (w', c)
      | (w', Inl ValueError) \<Rightarrow>
          (deactivate user_id d (send_message w' user_id N_stopped_config_error), Break)
      | (w', Inl Other_exception) \<Rightarrow>
          (send_message w' user_id N_unexpected_error,
           Fallthrough (random_uniform (2*60) (5*60) (rnd e 1))))"

text \<open>
  The loop may run for ever, so it is run on a list of rounds: one \<open>env\<close> for each pass,
  with what the other handlers do to the process state while the task sleeps after it. It either
  leaves the loop (\<open>Finished\<close>), or has used every round and is about to test the loop
  condition again (\<open>Running\<close>).
\<close>

datatype loop_result = Finished world | Running user_data world

fun task_loop ::
  "nat \<Rightarrow> (env \<times> (world \<Rightarrow> world)) list \<Rightarrow> user_data \<Rightarrow> world \<Rightarrow> loop_result" where
  "task_loop user_id [] d w = (if is_active d then Running d w else Finished w)"
| "task_loop user_id (rd # rounds) d w =
     (if \<not> is_active d then Finished w
      else
        (case iteration user_id (fst rd) d w of
           (w', Break) \<Rightarrow> Finished w'
         | (w', Continue s) \<Rightarrow> task_loop user_id rounds d (snd rd w')
         | (w', Fallthrough s) \<Rightarrow>
             task_loop user_id rounds (load_user_data (snd rd w') user_id) (snd rd w')))"

text \<open>Lines 777 to 779, after the loop.\<close>

definition task_cleanup :: "nat \<Rightarrow> world \<Rightarrow> world" where
  "task_cleanup user_id w =
     w\<lparr>AUTO_CLAIM_TASKS := (AUTO_CLAIM_TASKS w)(user_id := None),
       LAST_LONG_WAIT_NOTIFICATION := (LAST_LONG_WAIT_NOTIFICATION w)(user_id := None)\<rparr>"

text \<open>
  The loop from a given point on, followed by the clean-up; \<open>None\<close> when the task is
  still in the loop after the last round.
\<close>

definition task_from :: "nat \<Rightarrow> (env \<times> (world \<Rightarrow> world)) list \<Rightarrow> user_data \<Rightarrow> world \<Rightarrow> world option" where
  "task_from user_id rounds d w =
     (case task_loop user_id rounds d w of
        Finished w' \<Rightarrow> Some (task_cleanup user_id w')
      | Running d' w' \<Rightarrow> None)"

definition auto_claim_task_function :: "nat \<Rightarrow> (env \<times> (world \<Rightarrow> world)) list \<Rightarrow> world \<Rightarrow> world option" where
  "auto_claim_task_function user_id rounds w =
     (let auth_token = get_auth_token w user_id in
      if token_missing auth_token then
        let w1 = send_message w user_id N_stopped_token_missing
        in Some (deactivate user_id (load_user_data w1 user_id) w1)
      else task_from user_id rounds (load_user_data w user_id) w)"

section \<open>The task registry\<close>

text \<open>\<^verbatim>\<open>task.done()\<close>; the registry only ever holds positions of created tasks.\<close>

definition task_is_done :: "world \<Rightarrow> nat \<Rightarrow> bool" where
  "task_is_done w t = (if t < length (tasks w) then task_done (tasks w ! t) else True)"

text \<open>\<^verbatim>\<open>task_object and not task_object.done()\<close> for the registered task of a user.\<close>

definition task_running :: "world \<Rightarrow> nat \<Rightarrow> bool" where
  "task_running w user_id =
     (case AUTO_CLAIM_TASKS w user_id of None \<Rightarrow> False | Some t \<Rightarrow> \<not> task_is_done w t)"

text \<open>\<^verbatim>\<open>asyncio.create_task\<close>: a new task, not done, which starts to run later.\<close>

definition create_task :: "nat \<Rightarrow> world \<Rightarrow> nat \<times> world" where
  "create_task user_id w =
     (length (tasks w), w\<lparr>tasks := tasks w @ [\<lparr>task_user = user_id, task_done = False\<rparr>]\<rparr>)"

text \<open>
  \<^verbatim>\<open>task_object.cancel()\<close> followed by \<^verbatim>\<open>await task_object\<close>: the task function
  catches only \<^verbatim>\<open>Exception\<close>, which \<^verbatim>\<open>CancelledError\<close> is not, so the task ends at
  the point where it is suspended, without running its clean-up.
\<close>

definition cancel_and_await :: "nat \<Rightarrow> world \<Rightarrow> world" where
  "cancel_and_await t w =
     (if t < length (tasks w)
      then w\<lparr>tasks := (tasks w)[t := (tasks w ! t)\<lparr>task_done := True\<rparr>]\<rparr>
      else w)"

definition core_autoclaim_start :: "nat \<Rightarrow> nat \<Rightarrow> world \<Rightarrow> world" where
  "core_autoclaim_start user_id chat_id w =
     (let auth_token = get_auth_token w user_id in
      if token_missing auth_token then send_message w chat_id R_start_token_not_set
      else
        let d = load_user_data w user_id in
        if is_active d \<and> task_running w user_id then send_message w chat_id R_already_active
        else
          let w1 = save_user_data user_id (d\<lparr>auto_claim_active := Some True\<rparr>) w;
              (t, w2) = create_task user_id w1;
              w3 = w2\<lparr>AUTO_CLAIM_TASKS := (AUTO_CLAIM_TASKS w2)(user_id \<mapsto> t)\<rparr>
          in send_message w3 chat_id R_activated)"

definition core_autoclaim_stop :: "nat \<Rightarrow> nat \<Rightarrow> world \<Rightarrow> world" where
  "core_autoclaim_stop user_id chat_id w =
     (let d = load_user_data w user_id;
          is_currently_active_in_data = is_active d;
          task_object = AUTO_CLAIM_TASKS w user_id;
          is_task_running = task_running w user_id
      in if \<not> is_currently_active_in_data \<and> \<not> is_task_running
         then send_message w chat_id R_not_active
         else
           let w1 = deactivate user_id d w;
               w2 = (if is_task_running
                     then (case task_object of None \<Rightarrow> w1 | Some t \<Rightarrow> cancel_and_await t w1)
                     else w1);
               w3 = task_cleanup user_id w2
           in send_message w3 chat_id R_deactivated)"

section \<open>Restart at boot\<close>

text \<open>File names of the user records, and the way \<^verbatim>\<open>post_init\<close> reads them back.\<close>

definition digit_char :: "nat \<Rightarrow> char" where
  "digit_char n = char_of (48 + n)"

fun str_nat :: "nat \<Rightarrow> string" where
  "str_nat n = (if n < 10 then [digit_char n] else str_nat (n div 10) @ [digit_char (n mod 10)])"

declare str_nat.simps [simp del]

definition get_user_data_file :: "nat \<Rightarrow> string" where
  "get_user_data_file user_id = str_nat user_id @ ''.json''"

definition endswith :: "string \<Rightarrow> string \<Rightarrow> bool" where
  "endswith s suf = (length suf \<le> length s \<and> drop (length s - length suf) s = suf)"

text \<open>\<^verbatim>\<open>filename.split(".")[0]\<close>, \<^verbatim>\<open>str.isdigit\<close> and \<^verbatim>\<open>int\<close> on ASCII digits.\<close>

definition split_dot_first :: "string \<Rightarrow> string" where
  "split_dot_first s = takeWhile (\<lambda>c. c \<noteq> CHR ''.'') s"

definition is_digit_char :: "char \<Rightarrow> bool" where
  "is_digit_char c = (48 \<le> (of_char c :: nat) \<and> (of_char c :: nat) \<le> 57)"

definition isdigit :: "string \<Rightarrow> bool" where
  "isdigit s = (s \<noteq> [] \<and> list_all is_digit_char s)"

definition int_of_digits :: "string \<Rightarrow> nat" where
  "int_of_digits s = foldl (\<lambda>a c. 10 * a + (of_char c - 48)) 0 s"

text \<open>The body of the \<^verbatim>\<open>for\<close> loop of \<^verbatim>\<open>post_init\<close>, lines 908 to 926.\<close>

definition post_init_file :: "string \<Rightarrow> world \<Rightarrow> world" where
  "post_init_file filename w =
     (if endswith filename ''.json'' then
        let user_id_str = split_dot_first filename in
        if \<not> isdigit user_id_str then w
        else
          let user_id = int_of_digits user_id_str;
              d = load_user_data w user_id
          in if is_active d then
               let task_exists = (case AUTO_CLAIM_TASKS w user_id of None \<Rightarrow> False | Some t \<Rightarrow> True);
                   is_task_done_or_none =
                     (case AUTO_CLAIM_TASKS w user_id of None \<Rightarrow> True | Some t \<Rightarrow> task_is_done w t)
               in if \<not> task_exists \<or> is_task_done_or_none
                  then
                    let (new_task, w1) = create_task user_id w
                    in w1\<lparr>AUTO_CLAIM_TASKS := (AUTO_CLAIM_TASKS w1)(user_id \<mapsto> new_task)\<rparr>
                  else w
             else w
      else w)"

text \<open>\<^verbatim>\<open>post_init\<close> on the listing of the user-data directory.\<close>

fun post_init :: "string list \<Rightarrow> world \<Rightarrow> world" where
  "post_init [] w = w"
| "post_init (filename # filenames) w = post_init filenames (post_init_file filename w)"

text \<open>The tasks of a user that are not done, and the tasks created between two states.\<close>

definition live_tasks :: "world \<Rightarrow> nat \<Rightarrow> task list" where
  "live_tasks w user_id = filter (\<lambda>t. task_user t = user_id \<and> \<not> task_done t) (tasks w)"

definition spawned :: "world \<Rightarrow> world \<Rightarrow> task list" where
  "spawned w w' = drop (length (tasks w)) (tasks w')"

section \<open>Example states\<close>

text \<open>
  A user with a stored credential and the flag set, whose task is registered and running,
  and one round in which a claim is available and the balance of silver rises from 10
  to 15.
\<close>

definition ex_user_data :: user_data where
  "ex_user_data = \<lparr>auth_token = Some ''eyJ0'', auto_claim_active = Some True\<rparr>"

definition ex_world :: world where
  "ex_world =
     \<lparr>user_data_files = (\<lambda>u. None)(7 \<mapsto> ex_user_data),
      claim_history_files = (\<lambda>u. None),
      AUTO_CLAIM_TASKS = (\<lambda>u. None)(7 \<mapsto> 0),
      LAST_LONG_WAIT_NOTIFICATION = (\<lambda>u. None),
      tasks = [\<lparr>task_user = 7, task_done = False\<rparr>],
      outbox = []\<rparr>"

definition ex_env :: env where
  "ex_env =
     \<lparr>rnd = (\<lambda>k. 1 / 2),
      check_api_result =
        (Some [(''data'', JObj [(''isClaimable'', JBool True), (''nextFrame'', JInt 0)])], Some 200),
      tokens_before_result =
        (Some [(''interlinkSilverTokenAmount'', 10), (''interlinkGoldTokenAmount'', 2)],
         Msg_from_server (JStr ''ok'')),
      claim_api_result = (Some [(''data'', JBool True)], Some 200),
      tokens_after_result =
        (Some [(''interlinkSilverTokenAmount'', 15), (''interlinkGoldTokenAmount'', 2)],
         Msg_from_server (JStr ''ok'')),
      time_ms = 1000000,
      time_now = 1000,
      now_wib = ''2025-06-01 08:00:00 WIB''\<rparr>"

text \<open>The same round when the balances cannot be read after the claim.\<close>

definition ex_env_unverified :: env where
  "ex_env_unverified = ex_env\<lparr>tokens_after_result := (None, Msg_unknown_response)\<rparr>"

text \<open>The same round when the balance of silver is 7 after the claim.\<close>

definition ex_env_drop :: env where
  "ex_env_drop = ex_env\<lparr>tokens_after_result :=
      (Some [(''interlinkSilverTokenAmount'', 7), (''interlinkGoldTokenAmount'', 2)],
       Msg_from_server (JStr ''ok''))\<rparr>"

text \<open>The example state with one claim already in the history of the user.\<close>

definition ex_world_history :: world where
  "ex_world_history =
     ex_world\<lparr>claim_history_files := (\<lambda>u. None)(7 \<mapsto>
        [\<lparr>timestamp = ''2025-05-31 08:00:00 WIB'', success = True,
          message = Msg_from_server (JStr ''ok''),
          claimed_silver = 5, claimed_gold = 0, claimed_diamond = 0,
          total_silver_after = 10, total_gold_after = 2, total_diamond_after = 0\<rparr>])\<rparr>"

text \<open>Rounds in which the eligibility check answers 401, answers 429, names a moment
  that has passed, and names a moment ten minutes ahead.\<close>

definition ex_env_401 :: env where
  "ex_env_401 = ex_env\<lparr>check_api_result := (Some [(''message'', JStr ''Unauthorized'')], Some 401)\<rparr>"

definition ex_env_429 :: env where
  "ex_env_429 = ex_env\<lparr>check_api_result := (Some [(''message'', JStr ''Too Many Requests'')], Some 429)\<rparr>"

definition ex_env_past :: env where
  "ex_env_past = ex_env\<lparr>check_api_result :=
     (Some [(''data'', JObj [(''isClaimable'', JBool False), (''nextFrame'', JInt 500000)])], Some 200)\<rparr>"

definition ex_env_wait :: env where
  "ex_env_wait = ex_env\<lparr>check_api_result :=
     (Some [(''data'', JObj [(''isClaimable'', JBool False), (''nextFrame'', JInt 1600000)])], Some 200)\<rparr>"

text \<open>The example state with the flag absent from the user record while the task runs.\<close>

definition ex_world_orphan :: world where
  "ex_world_orphan =
     ex_world\<lparr>user_data_files := (\<lambda>u. None)(7 \<mapsto> ex_user_data\<lparr>auto_claim_active := None\<rparr>)\<rparr>"

text \<open>The example state with no task at all.\<close>

definition ex_world_idle :: world where
  "ex_world_idle = ex_world\<lparr>AUTO_CLAIM_TASKS := (\<lambda>u. None), tasks := []\<rparr>"

text \<open>
  A process that has just started: users 7 and 8 are flagged active, user 9 is not, and
  no task exists.
\<close>

definition ex_world_boot :: world where
  "ex_world_boot =
     \<lparr>user_data_files = (\<lambda>u. None)
        (7 \<mapsto> ex_user_data, 8 \<mapsto> ex_user_data,
         9 \<mapsto> ex_user_data\<lparr>auto_claim_active := Some False\<rparr>),
      claim_history_files = (\<lambda>u. None),
      AUTO_CLAIM_TASKS = (\<lambda>u. None),
      LAST_LONG_WAIT_NOTIFICATION = (\<lambda>u. None),
      tasks = [],
      outbox = []\<rparr>"

lemmas ex_defs = ex_user_data_def ex_world_def ex_env_def

lemmas store_defs = get_auth_token_def load_user_data_def token_missing_def
  balances_truthy_def get_amount_def

lemmas claim_eval_defs = core_claim_action_def perform_claim_def api_claim_airdrop_def
  append_claim_history_def save_claim_history_def load_claim_history_def send_message_def
  dict_get_def dict_has_def gained_parts_def

section \<open>Claim attempts and the history\<close>

lemma perform_claim_successful_iff:
  "claim_successful (perform_claim sb gb db e) =
     (\<exists>body. fst (claim_api_result e) = Some body \<and> map_of body ''data'' = Some (JBool True))"
  apply (cases "claim_api_result e")
  apply (auto simp: perform_claim_def api_claim_airdrop_def Let_def dict_get_def dict_has_def
      split: option.splits json.splits prod.splits if_splits)
  done

lemma claimable_payload_nonempty:
  "truthy (dict_get kvs k JNull) \<Longrightarrow> kvs \<noteq> []"
  by (auto simp: dict_get_def)

lemma load_history_send [simp]:
  "load_claim_history (send_message w c n) u = load_claim_history w u"
  by (simp add: load_claim_history_def send_message_def)

lemma load_history_deactivate [simp]:
  "load_claim_history (deactivate v d w) u = load_claim_history w u"
  by (simp add: load_claim_history_def deactivate_def save_user_data_def)

lemma load_history_append [simp]:
  "load_claim_history (append_claim_history u entry w) u = load_claim_history w u @ [entry]"
  by (simp add: load_claim_history_def append_claim_history_def save_claim_history_def)

lemma manual_claim_records:
  assumes "\<not> token_missing (get_auth_token w u)" "balances_truthy (fst (tokens_before_result e))"
  shows "load_claim_history (core_claim_action u c e w) u =
      load_claim_history w u @ [history_entry_built (perform_claim
         (get_amount (fst (tokens_before_result e)) ''interlinkSilverTokenAmount'' 0)
         (get_amount (fst (tokens_before_result e)) ''interlinkGoldTokenAmount'' 0)
         (get_amount (fst (tokens_before_result e)) ''interlinkDiamondTokenAmount'' 0) e)]"
  using assms
  by (simp add: core_claim_action_def Let_def case_prod_beta)

lemma claim_branch_records:
  assumes "balances_truthy (fst (tokens_before_result e))"
  shows "load_claim_history (fst (claim_branch u e d w)) u =
      load_claim_history w u @ [history_entry_built (perform_claim
         (get_amount (fst (tokens_before_result e)) ''interlinkSilverTokenAmount'' 0)
         (get_amount (fst (tokens_before_result e)) ''interlinkGoldTokenAmount'' 0)
         (get_amount (fst (tokens_before_result e)) ''interlinkDiamondTokenAmount'' 0) e)]"
  using assms
  by (simp add: claim_branch_def Let_def case_prod_beta)

lemma claim_branch_no_exception:
  "\<exists>c. snd (claim_branch u e d w) = Inr c"
  by (simp add: claim_branch_def Let_def case_prod_beta)

lemma iteration_body_claimable:
  assumes "\<not> token_missing (get_auth_token w u)"
      and "api_check_claimable (check_api_result e) = (Some (JObj kvs), m, st)"
      and "st \<noteq> Some 401"
      and "truthy (dict_get kvs ''isClaimable'' JNull)"
  shows "iteration_body u e d s0 w = claim_branch u e d w"
proof -
  have "kvs \<noteq> []" using assms(4) by (rule claimable_payload_nonempty)
  with assms show ?thesis
    by (simp add: iteration_body_def Let_def)
qed

lemma iteration_claimable:
  assumes "\<not> token_missing (get_auth_token w u)"
      and "api_check_claimable (check_api_result e) = (Some (JObj kvs), m, st)"
      and "st \<noteq> Some 401"
      and "truthy (dict_get kvs ''isClaimable'' JNull)"
  shows "fst (iteration u e d w) = fst (claim_branch u e d w)"
proof -
  obtain w' r where eq: "claim_branch u e d w = (w', r)"
    by (cases "claim_branch u e d w")
  moreover obtain c where "r = Inr c"
    using claim_branch_no_exception [of u e d w] eq by auto
  ultimately show ?thesis
    by (simp add: iteration_def Let_def iteration_body_claimable [OF assms])
qed

lemma auto_claim_records:
  assumes "\<not> token_missing (get_auth_token w u)"
      and "api_check_claimable (check_api_result e) = (Some (JObj kvs), m, st)"
      and "st \<noteq> Some 401"
      and "truthy (dict_get kvs ''isClaimable'' JNull)"
      and "balances_truthy (fst (tokens_before_result e))"
  shows "load_claim_history (fst (iteration u e d w)) u =
      load_claim_history w u @ [history_entry_built (perform_claim
         (get_amount (fst (tokens_before_result e)) ''interlinkSilverTokenAmount'' 0)
         (get_amount (fst (tokens_before_result e)) ''interlinkGoldTokenAmount'' 0)
         (get_amount (fst (tokens_before_result e)) ''interlinkDiamondTokenAmount'' 0) e)]"
  using iteration_claimable [OF assms(1-4)] claim_branch_records [OF assms(5)] by simp

lemma entry_fields:
  "success (history_entry_built (perform_claim sb gb db e)) = claim_successful (perform_claim sb gb db e)"
  "timestamp (history_entry_built (perform_claim sb gb db e)) = now_wib e"
  by (simp_all add: perform_claim_def Let_def case_prod_beta)

lemma entry_failed_zero:
  "\<not> claim_successful (perform_claim sb gb db e) \<Longrightarrow>
     claimed_silver (history_entry_built (perform_claim sb gb db e)) = 0 \<and>
     claimed_gold (history_entry_built (perform_claim sb gb db e)) = 0 \<and>
     claimed_diamond (history_entry_built (perform_claim sb gb db e)) = 0"
  by (simp add: perform_claim_def Let_def case_prod_beta)

lemma entry_unverified:
  "claim_successful (perform_claim sb gb db e) \<Longrightarrow> \<not> balances_truthy (fst (tokens_after_result e)) \<Longrightarrow>
     claimed_silver (history_entry_built (perform_claim sb gb db e)) = 0 \<and>
     claimed_gold (history_entry_built (perform_claim sb gb db e)) = 0 \<and>
     claimed_diamond (history_entry_built (perform_claim sb gb db e)) = 0 \<and>
     total_silver_after (history_entry_built (perform_claim sb gb db e)) = sb \<and>
     total_gold_after (history_entry_built (perform_claim sb gb db e)) = gb \<and>
     total_diamond_after (history_entry_built (perform_claim sb gb db e)) = db"
  by (simp add: perform_claim_def Let_def case_prod_beta)

lemma entry_verified:
  "claim_successful (perform_claim sb gb db e) \<Longrightarrow> balances_truthy (fst (tokens_after_result e)) \<Longrightarrow>
     claimed_silver (history_entry_built (perform_claim sb gb db e)) =
        get_amount (fst (tokens_after_result e)) ''interlinkSilverTokenAmount'' 0 - sb \<and>
     claimed_gold (history_entry_built (perform_claim sb gb db e)) =
        get_amount (fst (tokens_after_result e)) ''interlinkGoldTokenAmount'' 0 - gb \<and>
     claimed_diamond (history_entry_built (perform_claim sb gb db e)) =
        get_amount (fst (tokens_after_result e)) ''interlinkDiamondTokenAmount'' 0 - db"
  by (simp add: perform_claim_def Let_def case_prod_beta)

lemma ex_check:
  "api_check_claimable (check_api_result ex_env) =
     (Some (JObj [(''isClaimable'', JBool True), (''nextFrame'', JInt 0)]),
      Msg_from_server (JStr ''Status klaim berhasil diperiksa.''), Some 200)"
  by (simp add: ex_env_def api_check_claimable_def dict_has_def dict_get_def)

lemma ex_claimable:
  "truthy (dict_get [(''isClaimable'', JBool True), (''nextFrame'', JInt 0)] ''isClaimable'' JNull)"
  by (simp add: dict_get_def)

lemma ex_token_present: "\<not> token_missing (get_auth_token ex_world 7)"
  by (simp add: ex_defs store_defs)

text \<open>
  C9. In a manual claim and in a claim made by the scheduler loop alike, the entry
  appended to the history has \<open>success\<close> true exactly when the body returned by the claim
  call is present and its field \<open>data\<close> is the boolean true; neither the status code
  nor any other field is looked at. An entry that is not a success records zero for the
  three claimed amounts.
\<close>

theorem history_success_iff_data_true:
  assumes "\<not> token_missing (get_auth_token w user_id)"
      and "balances_truthy (fst (tokens_before_result e))"
      and "api_check_claimable (check_api_result e) = (Some (JObj kvs), m, st)"
      and "st \<noteq> Some 401"
      and "truthy (dict_get kvs ''isClaimable'' JNull)"
  shows "\<exists>entry.
           load_claim_history (core_claim_action user_id chat_id e w) user_id =
             load_claim_history w user_id @ [entry]
         \<and> load_claim_history (fst (iteration user_id e d w)) user_id =
             load_claim_history w user_id @ [entry]
         \<and> (success entry \<longleftrightarrow>
              (\<exists>body. fst (claim_api_result e) = Some body
                      \<and> map_of body ''data'' = Some (JBool True)))
         \<and> (\<not> success entry \<longrightarrow>
              claimed_silver entry = 0 \<and> claimed_gold entry = 0 \<and> claimed_diamond entry = 0)"
  using manual_claim_records [OF assms(1,2)] auto_claim_records [OF assms(1,3,4,5,2)]
    entry_failed_zero perform_claim_successful_iff
  by (simp add: entry_fields)

theorem history_success_iff_data_true_witness:
  "\<not> token_missing (get_auth_token ex_world 7)
   \<and> balances_truthy (fst (tokens_before_result ex_env))
   \<and> (\<exists>entry.
           load_claim_history (core_claim_action 7 7 ex_env ex_world) 7 =
             load_claim_history ex_world 7 @ [entry]
         \<and> load_claim_history (fst (iteration 7 ex_env ex_user_data ex_world)) 7 =
             load_claim_history ex_world 7 @ [entry]
         \<and> success entry)"
proof -
  have h2: "balances_truthy (fst (tokens_before_result ex_env))"
    by (simp add: ex_defs store_defs)
  have h4: "Some (200::int) \<noteq> Some 401" by simp
  have h6: "fst (claim_api_result ex_env) = Some [(''data'', JBool True)]"
    by (simp add: ex_env_def)
  show ?thesis
    using ex_token_present h2 h6
      history_success_iff_data_true [OF ex_token_present h2 ex_check h4 ex_claimable,
        of 7 ex_user_data]
    by auto
qed

text \<open>
  C10. When the claim call reported success and the balances cannot be read afterwards
  (the query gives no payload), the entry appended to the history, by the manual claim
  and by the loop alike, is a success, its three claimed amounts are zero, and its three
  totals are the balances read before the claim.
\<close>

theorem unverified_success_keeps_before_totals:
  assumes "\<not> token_missing (get_auth_token w user_id)"
      and "balances_truthy (fst (tokens_before_result e))"
      and "api_check_claimable (check_api_result e) = (Some (JObj kvs), m, st)"
      and "st \<noteq> Some 401"
      and "truthy (dict_get kvs ''isClaimable'' JNull)"
      and "fst (claim_api_result e) = Some body"
      and "map_of body ''data'' = Some (JBool True)"
      and "\<not> balances_truthy (fst (tokens_after_result e))"
  shows "\<exists>entry.
           load_claim_history (core_claim_action user_id chat_id e w) user_id =
             load_claim_history w user_id @ [entry]
         \<and> load_claim_history (fst (iteration user_id e d w)) user_id =
             load_claim_history w user_id @ [entry]
         \<and> success entry
         \<and> claimed_silver entry = 0 \<and> claimed_gold entry = 0 \<and> claimed_diamond entry = 0
         \<and> total_silver_after entry =
             get_amount (fst (tokens_before_result e)) ''interlinkSilverTokenAmount'' 0
         \<and> total_gold_after entry =
             get_amount (fst (tokens_before_result e)) ''interlinkGoldTokenAmount'' 0
         \<and> total_diamond_after entry =
             get_amount (fst (tokens_before_result e)) ''interlinkDiamondTokenAmount'' 0"
proof -
  let ?sb = "get_amount (fst (tokens_before_result e)) ''interlinkSilverTokenAmount'' 0"
  let ?gb = "get_amount (fst (tokens_before_result e)) ''interlinkGoldTokenAmount'' 0"
  let ?db = "get_amount (fst (tokens_before_result e)) ''interlinkDiamondTokenAmount'' 0"
  have ok: "claim_successful (perform_claim ?sb ?gb ?db e)"
    using assms(6,7) by (simp add: perform_claim_successful_iff)
  show ?thesis
    using manual_claim_records [OF assms(1,2)] auto_claim_records [OF assms(1,3,4,5,2)]
      entry_unverified [OF ok assms(8)] ok
    by (simp add: entry_fields)
qed

theorem unverified_success_keeps_before_totals_witness:
  "\<not> balances_truthy (fst (tokens_after_result ex_env_unverified))
   \<and> (\<exists>entry.
         load_claim_history (core_claim_action 7 7 ex_env_unverified ex_world) 7 = [entry]
       \<and> load_claim_history (fst (iteration 7 ex_env_unverified ex_user_data ex_world)) 7 = [entry]
       \<and> success entry
       \<and> claimed_silver entry = 0 \<and> claimed_gold entry = 0 \<and> claimed_diamond entry = 0
       \<and> total_silver_after entry = 10 \<and> total_gold_after entry = 2
       \<and> total_diamond_after entry = 0)"
proof -
  have h2: "balances_truthy (fst (tokens_before_result ex_env_unverified))"
    by (simp add: ex_env_unverified_def ex_defs store_defs)
  have h3: "api_check_claimable (check_api_result ex_env_unverified) =
     (Some (JObj [(''isClaimable'', JBool True), (''nextFrame'', JInt 0)]),
      Msg_from_server (JStr ''Status klaim berhasil diperiksa.''), Some 200)"
    using ex_check by (simp add: ex_env_unverified_def)
  have h4: "Some (200::int) \<noteq> Some 401" by simp
  have h6: "fst (claim_api_result ex_env_unverified) = Some [(''data'', JBool True)]"
    by (simp add: ex_env_unverified_def ex_env_def)
  have h7: "map_of [(''data'', JBool True)] ''data'' = Some (JBool True)" by simp
  have h8: "\<not> balances_truthy (fst (tokens_after_result ex_env_unverified))"
    by (simp add: ex_env_unverified_def store_defs)
  have b: "get_amount (fst (tokens_before_result ex_env_unverified)) ''interlinkSilverTokenAmount'' 0 = 10"
    "get_amount (fst (tokens_before_result ex_env_unverified)) ''interlinkGoldTokenAmount'' 0 = 2"
    "get_amount (fst (tokens_before_result ex_env_unverified)) ''interlinkDiamondTokenAmount'' 0 = 0"
    by (simp_all add: ex_env_unverified_def ex_env_def get_amount_def)
  have l: "load_claim_history ex_world 7 = []"
    by (simp add: ex_world_def load_claim_history_def)
  show ?thesis
    using h8 unverified_success_keeps_before_totals
      [OF ex_token_present h2 h3 h4 ex_claimable h6 h7 h8, of 7 ex_user_data]
    by (simp add: b l)
qed

text \<open>
  C2, as the code has it. When the claim call reported success and the balances are read
  again, the claimed amount recorded for each tier is the balance after minus the balance
  before, with no clamping: it is \<open>max (after - before) 0\<close> whenever the balance did not
  fall. A claim that changes no balance records three zeros, and the entry is a success.
\<close>

theorem claimed_delta_is_difference:
  assumes "\<not> token_missing (get_auth_token w user_id)"
      and "balances_truthy (fst (tokens_before_result e))"
      and "api_check_claimable (check_api_result e) = (Some (JObj kvs), m, st)"
      and "st \<noteq> Some 401"
      and "truthy (dict_get kvs ''isClaimable'' JNull)"
      and "fst (claim_api_result e) = Some body"
      and "map_of body ''data'' = Some (JBool True)"
      and "balances_truthy (fst (tokens_after_result e))"
      and "s_before = get_amount (fst (tokens_before_result e)) ''interlinkSilverTokenAmount'' 0"
      and "g_before = get_amount (fst (tokens_before_result e)) ''interlinkGoldTokenAmount'' 0"
      and "d_before = get_amount (fst (tokens_before_result e)) ''interlinkDiamondTokenAmount'' 0"
      and "s_after = get_amount (fst (tokens_after_result e)) ''interlinkSilverTokenAmount'' 0"
      and "g_after = get_amount (fst (tokens_after_result e)) ''interlinkGoldTokenAmount'' 0"
      and "d_after = get_amount (fst (tokens_after_result e)) ''interlinkDiamondTokenAmount'' 0"
  shows "\<exists>entry.
           load_claim_history (core_claim_action user_id chat_id e w) user_id =
             load_claim_history w user_id @ [entry]
         \<and> load_claim_history (fst (iteration user_id e d w)) user_id =
             load_claim_history w user_id @ [entry]
         \<and> success entry
         \<and> claimed_silver entry = s_after - s_before
         \<and> claimed_gold entry = g_after - g_before
         \<and> claimed_diamond entry = d_after - d_before
         \<and> (s_before \<le> s_after \<longrightarrow> claimed_silver entry = max (s_after - s_before) 0)
         \<and> (g_before \<le> g_after \<longrightarrow> claimed_gold entry = max (g_after - g_before) 0)
         \<and> (d_before \<le> d_after \<longrightarrow> claimed_diamond entry = max (d_after - d_before) 0)
         \<and> (s_after = s_before \<and> g_after = g_before \<and> d_after = d_before \<longrightarrow>
              claimed_silver entry = 0 \<and> claimed_gold entry = 0 \<and> claimed_diamond entry = 0)"
proof -
  have ok: "claim_successful (perform_claim s_before g_before d_before e)"
    using assms(6,7) by (simp add: perform_claim_successful_iff)
  show ?thesis
    using manual_claim_records [OF assms(1,2)] auto_claim_records [OF assms(1,3,4,5,2)]
      entry_verified [OF ok assms(8)] ok assms(9-14)
    by (simp add: entry_fields)
qed

theorem claimed_delta_is_difference_witness:
  "\<exists>entry.
     load_claim_history (core_claim_action 7 7 ex_env ex_world) 7 = [entry]
   \<and> load_claim_history (fst (iteration 7 ex_env ex_user_data ex_world)) 7 = [entry]
   \<and> success entry
   \<and> claimed_silver entry = 5 \<and> claimed_gold entry = 0 \<and> claimed_diamond entry = 0"
proof -
  have h2: "balances_truthy (fst (tokens_before_result ex_env))"
    by (simp add: ex_defs store_defs)
  have h4: "Some (200::int) \<noteq> Some 401" by simp
  have h6: "fst (claim_api_result ex_env) = Some [(''data'', JBool True)]"
    by (simp add: ex_env_def)
  have h7: "map_of [(''data'', JBool True)] ''data'' = Some (JBool True)" by simp
  have h8: "balances_truthy (fst (tokens_after_result ex_env))"
    by (simp add: ex_env_def store_defs)
  have b: "(10::int) = get_amount (fst (tokens_before_result ex_env)) ''interlinkSilverTokenAmount'' 0"
    "(2::int) = get_amount (fst (tokens_before_result ex_env)) ''interlinkGoldTokenAmount'' 0"
    "(0::int) = get_amount (fst (tokens_before_result ex_env)) ''interlinkDiamondTokenAmount'' 0"
    "(15::int) = get_amount (fst (tokens_after_result ex_env)) ''interlinkSilverTokenAmount'' 0"
    "(2::int) = get_amount (fst (tokens_after_result ex_env)) ''interlinkGoldTokenAmount'' 0"
    "(0::int) = get_amount (fst (tokens_after_result ex_env)) ''interlinkDiamondTokenAmount'' 0"
    by (simp_all add: ex_env_def get_amount_def)
  have l: "load_claim_history ex_world 7 = []"
    by (simp add: ex_world_def load_claim_history_def)
  show ?thesis
    using claimed_delta_is_difference
      [OF ex_token_present h2 ex_check h4 ex_claimable h6 h7 h8 b, of 7 ex_user_data]
    by (auto simp add: l)
qed

text \<open>
  C2, as the claim states it, fails: a successful manual claim around which the balance
  of silver falls from 10 to 7 records the claimed amount -3, which is not
  \<open>max (7 - 10) 0\<close>.
\<close>

theorem claimed_delta_not_clamped_counterexample:
  "success (last (load_claim_history (core_claim_action 7 7 ex_env_drop ex_world) 7))
   \<and> claimed_silver (last (load_claim_history (core_claim_action 7 7 ex_env_drop ex_world) 7))
      \<noteq> max (get_amount (fst (tokens_after_result ex_env_drop)) ''interlinkSilverTokenAmount'' 0
              - get_amount (fst (tokens_before_result ex_env_drop)) ''interlinkSilverTokenAmount'' 0) 0"
  by (simp add: ex_env_drop_def ex_defs store_defs claim_eval_defs Let_def)

lemma history_shown_entries: "map snd (history_shown h) = take 10 (rev h)"
proof -
  have "map snd (history_shown h) = rev (last_ten h)"
    by (simp add: history_shown_def comp_def case_prod_beta)
  also have "\<dots> = take 10 (rev h)"
    by (cases "10 \<le> length h") (simp_all add: last_ten_def rev_drop)
  finally show ?thesis .
qed

lemma history_shown_length: "length (history_shown h) \<le> 10"
proof -
  have "length (history_shown h) = length (map snd (history_shown h))" by simp
  then show ?thesis by (simp only: history_shown_entries) simp
qed

text \<open>
  C6. The history shown holds at most ten entries, and they are the first ten of the
  stored history read backwards, that is, the ten most recent ones, the most recent
  first; \<^verbatim>\<open>core_history_action\<close> sends exactly these. A claim attempt stores the old
  history followed by the new entry: nothing before it is dropped or moved, and the
  stored history is never cut.
\<close>

theorem history_display_and_append:
  "length (history_shown h) \<le> 10
   \<and> map snd (history_shown h) = take 10 (rev h)
   \<and> (load_claim_history w user_id \<noteq> [] \<longrightarrow>
        (\<exists>footer. outbox (core_history_action user_id chat_id w) =
           outbox w @ [(chat_id, R_history (history_shown (load_claim_history w user_id)) footer)]))
   \<and> (\<not> token_missing (get_auth_token w user_id) \<and> balances_truthy (fst (tokens_before_result e)) \<longrightarrow>
        (\<exists>entry. load_claim_history (core_claim_action user_id chat_id e w) user_id =
                    load_claim_history w user_id @ [entry]))"
  using manual_claim_records [of w user_id e chat_id]
  by (simp add: history_shown_entries history_shown_length core_history_action_def Let_def
      send_message_def)

theorem history_display_and_append_witness:
  "load_claim_history ex_world_history 7 \<noteq> []
   \<and> \<not> token_missing (get_auth_token ex_world_history 7)
   \<and> balances_truthy (fst (tokens_before_result ex_env))
   \<and> (\<exists>footer. outbox (core_history_action 7 7 ex_world_history) =
         outbox ex_world_history @
           [(7, R_history (history_shown (load_claim_history ex_world_history 7)) footer)])
   \<and> (\<exists>entry. load_claim_history (core_claim_action 7 7 ex_env ex_world_history) 7 =
                 load_claim_history ex_world_history 7 @ [entry])"
proof -
  have h0: "load_claim_history ex_world_history 7 \<noteq> []"
    by (simp add: ex_world_history_def ex_world_def load_claim_history_def)
  have h1: "\<not> token_missing (get_auth_token ex_world_history 7)"
    by (simp add: ex_world_history_def ex_defs store_defs)
  have h2: "balances_truthy (fst (tokens_before_result ex_env))"
    by (simp add: ex_defs store_defs)
  show ?thesis
    using h0 h1 h2 history_display_and_append [of "[]" ex_world_history 7 7 ex_env]
    by simp
qed

section \<open>The scheduler loop: sleeping and stopping\<close>

lemma check_status: "snd (snd (api_check_claimable r)) = snd r"
  by (simp add: api_check_claimable_def Let_def split: option.splits)

lemma check_no_payload_unless_200:
  "snd r \<noteq> Some 200 \<Longrightarrow> fst (api_check_claimable r) = None"
  by (simp add: api_check_claimable_def Let_def split: option.splits)

lemma iteration_401:
  assumes "\<not> token_missing (get_auth_token w u)" and "snd (check_api_result e) = Some 401"
  shows "iteration u e d w =
     (deactivate u d (send_message w u N_stopped_token_invalid_check), Break)"
proof -
  obtain p m st where c: "api_check_claimable (check_api_result e) = (p, m, st)"
    by (cases "api_check_claimable (check_api_result e)")
  with check_status [of "check_api_result e"] assms(2) have "st = Some 401" by simp
  with c assms(1) show ?thesis
    by (simp add: iteration_def iteration_body_def Let_def)
qed

lemma iteration_429:
  assumes "\<not> token_missing (get_auth_token w u)" and "snd (check_api_result e) = Some 429"
  shows "iteration u e d w =
     (send_message
        (send_message w u
           (N_check_failed (fst (snd (api_check_claimable (check_api_result e))))
              (py_int (random_uniform (5*60) (10*60) (rnd e 0) / 60))))
        u (N_rate_limited (py_int (random_uniform (45*60) (75*60) (rnd e 1) / 60))),
      Fallthrough (random_uniform (45*60) (75*60) (rnd e 1)))"
proof -
  obtain p m st where c: "api_check_claimable (check_api_result e) = (p, m, st)"
    by (cases "api_check_claimable (check_api_result e)")
  with check_status [of "check_api_result e"] assms(2) have st: "st = Some 429" by simp
  from check_no_payload_unless_200 [of "check_api_result e"] assms(2) c have p: "p = None"
    by simp
  from c st p assms(1) show ?thesis
    by (simp add: iteration_def iteration_body_def fail_branch_def Let_def)
qed

lemma iteration_wait:
  assumes "\<not> token_missing (get_auth_token w user_id)"
      and "api_check_claimable (check_api_result e) = (Some (JObj kvs), m, st)"
      and "st \<noteq> Some 401"
      and "kvs \<noteq> []"
      and "\<not> truthy (dict_get kvs ''isClaimable'' JNull)"
      and "py_num (dict_get kvs ''nextFrame'' (JInt 0)) = Some next_frame_ms"
  shows "snd (iteration user_id e d w) =
     Fallthrough
       (if next_frame_ms \<le> 0 then random_uniform (5*60) (10*60) (rnd e 0)
        else if real_of_int (next_frame_ms - time_ms e) / 1000 > 60 * 60
             then random_uniform (25*60) (35*60) (rnd e 1)
        else if real_of_int (next_frame_ms - time_ms e) / 1000 > 15 * 60
             then random_uniform (5*60) (10*60) (rnd e 1)
        else if real_of_int (next_frame_ms - time_ms e) / 1000 > 0
             then real_of_int (next_frame_ms - time_ms e) / 1000 + random_uniform 10 45 (rnd e 1)
        else random_uniform 30 90 (rnd e 1))"
  using assms
  by (simp add: iteration_def iteration_body_def wait_branch_def Let_def case_prod_beta max_def)

lemma random_uniform_range:
  assumes "0 \<le> u" "u \<le> 1" "a \<le> b"
  shows "a \<le> random_uniform a b u \<and> random_uniform a b u \<le> b"
proof -
  have "0 \<le> (b - a) * u" using assms by simp
  moreover have "(b - a) * u \<le> (b - a) * 1"
    using assms by (intro mult_left_mono) simp_all
  ultimately show ?thesis by (simp add: random_uniform_def)
qed

lemma task_loop_not_active: "\<not> is_active d \<Longrightarrow> task_loop u rounds d w = Finished w"
  by (cases rounds) simp_all

lemma task_loop_append:
  "task_loop u (xs @ ys) d w =
     (case task_loop u xs d w of Finished w' \<Rightarrow> Finished w' | Running d' w' \<Rightarrow> task_loop u ys d' w')"
proof (induction xs arbitrary: d w)
  case Nil
  then show ?case by (simp add: task_loop_not_active)
next
  case (Cons x xs)
  then show ?case
    by (simp split: prod.splits ctl.splits)
qed

lemma task_loop_running_active:
  "task_loop u rounds d w = Running d' w' \<Longrightarrow> is_active d'"
proof (induction rounds arbitrary: d w)
  case Nil
  then show ?case by (simp split: if_splits)
next
  case (Cons x xs)
  then show ?case
    by (auto split: if_splits prod.splits ctl.splits)
qed

lemmas loop_eval_defs = iteration_def iteration_body_def wait_branch_def fail_branch_def
  api_check_claimable_def dict_get_def dict_has_def random_uniform_def send_message_def
  deactivate_def save_user_data_def

text \<open>
  C3. Let the task have reached a pass of the loop in state \<open>w\<close>, and let the eligibility
  check of that pass answer 401. Then the task function returns, whatever rounds would
  follow: in the state it leaves, exactly one message was sent since \<open>w\<close>, the notice
  that auto-claim stopped because the token is invalid; the stored flag of the user is
  false; and the registry has no entry for the user.
\<close>

theorem check_401_stops_task:
  assumes "\<not> token_missing (get_auth_token w0 user_id)"
      and "task_loop user_id before (load_user_data w0 user_id) w0 = Running d w"
      and "\<not> token_missing (get_auth_token w user_id)"
      and "snd (check_api_result e) = Some 401"
  shows "\<exists>w'. auto_claim_task_function user_id (before @ (e, other) # after) w0 = Some w'
           \<and> outbox w' = outbox w @ [(user_id, N_stopped_token_invalid_check)]
           \<and> auto_claim_active (load_user_data w' user_id) = Some False
           \<and> AUTO_CLAIM_TASKS w' user_id = None"
proof -
  have act: "is_active d" using assms(2) by (rule task_loop_running_active)
  let ?w1 = "deactivate user_id d (send_message w user_id N_stopped_token_invalid_check)"
  have "task_loop user_id ((e, other) # after) d w = Finished ?w1"
    using act iteration_401 [OF assms(3,4)] by simp
  then have "task_loop user_id (before @ (e, other) # after) (load_user_data w0 user_id) w0
      = Finished ?w1"
    using assms(2) by (simp add: task_loop_append)
  then have "auto_claim_task_function user_id (before @ (e, other) # after) w0 =
      Some (task_cleanup user_id ?w1)"
    using assms(1) by (simp add: auto_claim_task_function_def task_from_def Let_def)
  moreover have "outbox (task_cleanup user_id ?w1) =
      outbox w @ [(user_id, N_stopped_token_invalid_check)]"
    by (simp add: task_cleanup_def deactivate_def save_user_data_def send_message_def)
  moreover have "auto_claim_active (load_user_data (task_cleanup user_id ?w1) user_id) = Some False"
    by (simp add: task_cleanup_def deactivate_def save_user_data_def load_user_data_def)
  moreover have "AUTO_CLAIM_TASKS (task_cleanup user_id ?w1) user_id = None"
    by (simp add: task_cleanup_def)
  ultimately show ?thesis by blast
qed

lemma ex_loaded: "load_user_data ex_world 7 = ex_user_data"
  by (simp add: ex_world_def load_user_data_def)

lemma ex_active: "is_active ex_user_data"
  by (simp add: ex_user_data_def is_active_def)

lemma ex_past_round:
  "iteration 7 ex_env_past ex_user_data ex_world = (ex_world, Fallthrough 60)"
  using ex_token_present
  by (simp add: ex_env_past_def ex_env_def loop_eval_defs Let_def)

theorem check_401_stops_task_witness:
  "\<exists>w'. auto_claim_task_function 7 ([(ex_env_past, \<lambda>w. w)] @ (ex_env_401, \<lambda>w. w) # []) ex_world = Some w'
        \<and> outbox w' = outbox ex_world @ [(7, N_stopped_token_invalid_check)]
        \<and> auto_claim_active (load_user_data w' 7) = Some False
        \<and> AUTO_CLAIM_TASKS w' 7 = None"
proof -
  have h2: "task_loop 7 [(ex_env_past, \<lambda>w. w)] (load_user_data ex_world 7) ex_world
      = Running ex_user_data ex_world"
    by (simp add: ex_loaded ex_active ex_past_round)
  have h4: "snd (check_api_result ex_env_401) = Some 401"
    by (simp add: ex_env_401_def)
  show ?thesis
    using check_401_stops_task [OF ex_token_present h2 ex_token_present h4, of "\<lambda>w. w" "[]"]
    by simp
qed

text \<open>
  C7. A pass whose eligibility check answers 429 does not leave the loop: it ends in a
  sleep of \<open>uniform(45*60, 75*60)\<close> seconds, between 45 and 75 minutes, whatever the body
  of the answer holds, and the loop goes on with the next round. It sends the general
  notice that the check failed and then one notice of the extended wait, and changes
  neither the stored user records nor the registry.
\<close>

theorem rate_limited_extended_backoff:
  assumes "\<not> token_missing (get_auth_token w user_id)"
      and "snd (check_api_result e) = Some 429"
      and "is_active d"
      and "0 \<le> rnd e 1" and "rnd e 1 \<le> 1"
      and "s = random_uniform (45*60) (75*60) (rnd e 1)"
  shows "\<exists>w' msg.
           iteration user_id e d w = (w', Fallthrough s)
         \<and> 45*60 \<le> s \<and> s \<le> 75*60
         \<and> outbox w' = outbox w @
             [(user_id, N_check_failed msg (py_int (random_uniform (5*60) (10*60) (rnd e 0) / 60))),
              (user_id, N_rate_limited (py_int (s / 60)))]
         \<and> user_data_files w' = user_data_files w
         \<and> AUTO_CLAIM_TASKS w' = AUTO_CLAIM_TASKS w
         \<and> task_loop user_id ((e, other) # rounds) d w =
             task_loop user_id rounds (load_user_data (other w') user_id) (other w')"
proof -
  let ?msg = "fst (snd (api_check_claimable (check_api_result e)))"
  let ?w' = "send_message
        (send_message w user_id
           (N_check_failed ?msg (py_int (random_uniform (5*60) (10*60) (rnd e 0) / 60))))
        user_id (N_rate_limited (py_int (s / 60)))"
  have it: "iteration user_id e d w = (?w', Fallthrough s)"
    using iteration_429 [OF assms(1,2)] assms(6) by simp
  have rng: "45*60 \<le> s \<and> s \<le> 75*60"
    using random_uniform_range [OF assms(4,5), of "45*60" "75*60"] assms(6) by simp
  have "outbox ?w' = outbox w @
             [(user_id, N_check_failed ?msg (py_int (random_uniform (5*60) (10*60) (rnd e 0) / 60))),
              (user_id, N_rate_limited (py_int (s / 60)))]"
    by (simp add: send_message_def)
  moreover have "user_data_files ?w' = user_data_files w" "AUTO_CLAIM_TASKS ?w' = AUTO_CLAIM_TASKS w"
    by (simp_all add: send_message_def)
  moreover have "task_loop user_id ((e, other) # rounds) d w =
             task_loop user_id rounds (load_user_data (other ?w') user_id) (other ?w')"
    using it assms(3) by simp
  ultimately show ?thesis using it rng by blast
qed

theorem rate_limited_extended_backoff_witness:
  "\<exists>w' msg.
     iteration 7 ex_env_429 ex_user_data ex_world = (w', Fallthrough 3600)
   \<and> outbox w' = outbox ex_world @ [(7, N_check_failed msg 7), (7, N_rate_limited 60)]"
proof -
  have h2: "snd (check_api_result ex_env_429) = Some 429"
    by (simp add: ex_env_429_def)
  have r: "\<And>k. rnd ex_env_429 k = 1 / 2"
    by (simp add: ex_env_429_def ex_env_def)
  have h4: "0 \<le> rnd ex_env_429 1" and h5: "rnd ex_env_429 1 \<le> 1"
    by (simp_all add: r)
  have h6: "(3600::real) = random_uniform (45*60) (75*60) (rnd ex_env_429 1)"
    by (simp add: r random_uniform_def)
  have p: "py_int (random_uniform 300 600 (1 / 2) / 60) = 7" "py_int 60 = 60"
    by (simp_all add: py_int_def random_uniform_def)
  show ?thesis
    using rate_limited_extended_backoff [OF ex_token_present h2 ex_active h4 h5 h6, of "\<lambda>w. w" "[]"]
    by (simp add: r p) blast
qed

text \<open>
  C1, as the code has it. In a pass whose check succeeds with a claim not available, the
  sleep is decided by \<open>nextFrame\<close> and by \<open>remaining\<close>, the seconds from now to it:
  \<open>nextFrame\<close> zero, negative or absent gives the sample of \<open>uniform(5*60, 10*60)\<close> drawn
  at the start of the pass; more than an hour remaining gives \<open>uniform(25*60, 35*60)\<close>;
  more than 15 minutes and at most an hour gives \<open>uniform(5*60, 10*60)\<close>; more than zero
  and at most 15 minutes gives \<open>remaining + uniform(10, 45)\<close>; and a positive
  \<open>nextFrame\<close> that has passed gives \<open>uniform(30, 90)\<close> seconds.
\<close>

theorem wait_sleep_by_bucket:
  assumes "\<not> token_missing (get_auth_token w user_id)"
      and "api_check_claimable (check_api_result e) = (Some (JObj kvs), m, st)"
      and "st \<noteq> Some 401"
      and "kvs \<noteq> []"
      and "\<not> truthy (dict_get kvs ''isClaimable'' JNull)"
      and "py_num (dict_get kvs ''nextFrame'' (JInt 0)) = Some next_frame_ms"
      and "remaining = real_of_int (next_frame_ms - time_ms e) / 1000"
      and "0 \<le> rnd e 0" and "rnd e 0 \<le> 1" and "0 \<le> rnd e 1" and "rnd e 1 \<le> 1"
  shows "\<exists>s. snd (iteration user_id e d w) = Fallthrough s
         \<and> s = (if next_frame_ms \<le> 0 then random_uniform (5*60) (10*60) (rnd e 0)
                else if remaining > 60 * 60 then random_uniform (25*60) (35*60) (rnd e 1)
                else if remaining > 15 * 60 then random_uniform (5*60) (10*60) (rnd e 1)
                else if remaining > 0 then remaining + random_uniform 10 45 (rnd e 1)
                else random_uniform 30 90 (rnd e 1))
         \<and> (next_frame_ms \<le> 0 \<longrightarrow> 5*60 \<le> s \<and> s \<le> 10*60)
         \<and> (0 < next_frame_ms \<and> 60*60 < remaining \<longrightarrow> 25*60 \<le> s \<and> s \<le> 35*60)
         \<and> (0 < next_frame_ms \<and> 15*60 < remaining \<and> remaining \<le> 60*60 \<longrightarrow>
               5*60 \<le> s \<and> s \<le> 10*60)
         \<and> (0 < next_frame_ms \<and> 0 < remaining \<and> remaining \<le> 15*60 \<longrightarrow>
               remaining + 10 \<le> s \<and> s \<le> remaining + 45)
         \<and> (0 < next_frame_ms \<and> remaining \<le> 0 \<longrightarrow> 30 \<le> s \<and> s \<le> 90)"
proof -
  have r0: "5*60 \<le> random_uniform (5*60) (10*60) (rnd e 0) \<and>
            random_uniform (5*60) (10*60) (rnd e 0) \<le> 10*60"
    using random_uniform_range [OF assms(8,9), of "5*60" "10*60"] by simp
  have r1: "25*60 \<le> random_uniform (25*60) (35*60) (rnd e 1) \<and>
            random_uniform (25*60) (35*60) (rnd e 1) \<le> 35*60"
    using random_uniform_range [OF assms(10,11), of "25*60" "35*60"] by simp
  have r2: "5*60 \<le> random_uniform (5*60) (10*60) (rnd e 1) \<and>
            random_uniform (5*60) (10*60) (rnd e 1) \<le> 10*60"
    using random_uniform_range [OF assms(10,11), of "5*60" "10*60"] by simp
  have r3: "10 \<le> random_uniform 10 45 (rnd e 1) \<and> random_uniform 10 45 (rnd e 1) \<le> 45"
    using random_uniform_range [OF assms(10,11), of 10 45] by simp
  have r4: "30 \<le> random_uniform 30 90 (rnd e 1) \<and> random_uniform 30 90 (rnd e 1) \<le> 90"
    using random_uniform_range [OF assms(10,11), of 30 90] by simp
  have it: "snd (iteration user_id e d w) =
     Fallthrough
       (if next_frame_ms \<le> 0 then random_uniform (5*60) (10*60) (rnd e 0)
        else if remaining > 60 * 60 then random_uniform (25*60) (35*60) (rnd e 1)
        else if remaining > 15 * 60 then random_uniform (5*60) (10*60) (rnd e 1)
        else if remaining > 0 then remaining + random_uniform 10 45 (rnd e 1)
        else random_uniform 30 90 (rnd e 1))"
    by (simp only: assms(7) iteration_wait [OF assms(1-6)])
  show ?thesis
    using it r0 r1 r2 r3 r4 by auto
qed

lemma ex_wait_check:
  "api_check_claimable (check_api_result ex_env_wait) =
     (Some (JObj [(''isClaimable'', JBool False), (''nextFrame'', JInt 1600000)]),
      Msg_from_server (JStr ''Status klaim berhasil diperiksa.''), Some 200)"
  by (simp add: ex_env_wait_def api_check_claimable_def dict_has_def dict_get_def)

theorem wait_sleep_by_bucket_witness:
  "\<exists>s. snd (iteration 7 ex_env_wait ex_user_data ex_world) = Fallthrough s
      \<and> s = 600 + 55 / 2 \<and> 600 + 10 \<le> s \<and> s \<le> 600 + 45"
proof -
  have h3: "Some (200::int) \<noteq> Some 401" by simp
  have h4: "[(''isClaimable'', JBool False), (''nextFrame'', JInt 1600000)] \<noteq> []" by simp
  have h5: "\<not> truthy (dict_get [(''isClaimable'', JBool False), (''nextFrame'', JInt 1600000)]
      ''isClaimable'' JNull)"
    by (simp add: dict_get_def)
  have h6: "py_num (dict_get [(''isClaimable'', JBool False), (''nextFrame'', JInt 1600000)]
      ''nextFrame'' (JInt 0)) = Some 1600000"
    by (simp add: dict_get_def)
  have h7: "(600::real) = real_of_int (1600000 - time_ms ex_env_wait) / 1000"
    by (simp add: ex_env_wait_def ex_env_def)
  have r: "\<And>k. rnd ex_env_wait k = 1 / 2"
    by (simp add: ex_env_wait_def ex_env_def)
  have h8: "0 \<le> rnd ex_env_wait 0" and h9: "rnd ex_env_wait 0 \<le> 1"
    and h10: "0 \<le> rnd ex_env_wait 1" and h11: "rnd ex_env_wait 1 \<le> 1"
    by (simp_all add: r)
  show ?thesis
    using wait_sleep_by_bucket
      [OF ex_token_present ex_wait_check h3 h4 h5 h6 h7 h8 h9 h10 h11, of ex_user_data]
    by (simp add: r random_uniform_def)
qed

text \<open>
  C1, as the claim states it, fails when \<open>nextFrame\<close> has passed: the sleep is then 60
  seconds for the sample 1/2, more than the 45 seconds that zero remaining time plus the
  largest jitter would give.
\<close>

theorem wait_sleep_past_counterexample:
  "snd (iteration 7 ex_env_past ex_user_data ex_world) = Fallthrough 60
   \<and> \<not> (60 \<le> max 0 (real_of_int (500000 - time_ms ex_env_past) / 1000) + 45)"
  using ex_token_present
  by (simp add: ex_env_past_def ex_env_def loop_eval_defs Let_def)

section \<open>Start and stop\<close>

lemmas registry_defs = task_running_def task_is_done_def create_task_def cancel_and_await_def
  task_cleanup_def live_tasks_def spawned_def

lemma start_no_token:
  "token_missing (get_auth_token w u) \<Longrightarrow>
     core_autoclaim_start u c w = send_message w c R_start_token_not_set"
  by (simp add: core_autoclaim_start_def)

lemma start_already:
  "\<not> token_missing (get_auth_token w u) \<Longrightarrow> is_active (load_user_data w u) \<Longrightarrow>
     task_running w u \<Longrightarrow> core_autoclaim_start u c w = send_message w c R_already_active"
  by (simp add: core_autoclaim_start_def Let_def)

lemma start_spawns:
  assumes "\<not> token_missing (get_auth_token w u)"
      and "\<not> (is_active (load_user_data w u) \<and> task_running w u)"
  shows "spawned w (core_autoclaim_start u c w) = [\<lparr>task_user = u, task_done = False\<rparr>]"
    and "task_running (core_autoclaim_start u c w) u"
    and "is_active (load_user_data (core_autoclaim_start u c w) u)"
    and "\<not> token_missing (get_auth_token (core_autoclaim_start u c w) u)"
    and "live_tasks (core_autoclaim_start u c w) u =
           live_tasks w u @ [\<lparr>task_user = u, task_done = False\<rparr>]"
  using assms
  by (auto simp add: core_autoclaim_start_def Let_def registry_defs save_user_data_def
      send_message_def load_user_data_def get_auth_token_def is_active_def nth_append)

lemma send_message_keeps:
  "get_auth_token (send_message w c n) u = get_auth_token w u"
  "load_user_data (send_message w c n) u = load_user_data w u"
  "task_running (send_message w c n) u = task_running w u"
  "live_tasks (send_message w c n) u = live_tasks w u"
  "tasks (send_message w c n) = tasks w"
  "task_is_done (send_message w c n) t = task_is_done w t"
  "AUTO_CLAIM_TASKS (send_message w c n) = AUTO_CLAIM_TASKS w"
  by (simp_all add: send_message_def get_auth_token_def load_user_data_def registry_defs
      split: option.splits)

lemma start_twice:
  assumes "\<not> token_missing (get_auth_token w u)"
  shows "core_autoclaim_start u c (core_autoclaim_start u c w) =
           send_message (core_autoclaim_start u c w) c R_already_active"
proof (cases "is_active (load_user_data w u) \<and> task_running w u")
  case True
  then have "core_autoclaim_start u c w = send_message w c R_already_active"
    using assms by (simp add: start_already)
  then show ?thesis
    using True assms by (simp add: start_already send_message_keeps)
next
  case False
  show ?thesis
    using start_spawns(2,3,4) [OF assms False] by (simp add: start_already)
qed

text \<open>
  C4, as the code has it. Without a stored credential, start only answers that the
  token is not set. With one: when the stored flag is set and the registered task is
  running, start only answers that auto-claim is already active; when no registered task
  is running, it creates exactly one task, registers it and sets the flag. A second start
  right after the first
  is always of the first kind, so two starts in a row from a state where the user has no
  live task leave exactly one.
\<close>

theorem start_idempotent_when_flagged:
  "(token_missing (get_auth_token w user_id) \<longrightarrow>
      core_autoclaim_start user_id chat_id w = send_message w chat_id R_start_token_not_set)
   \<and> (\<not> token_missing (get_auth_token w user_id) \<and> is_active (load_user_data w user_id)
        \<and> task_running w user_id \<longrightarrow>
      core_autoclaim_start user_id chat_id w = send_message w chat_id R_already_active)
   \<and> (\<not> token_missing (get_auth_token w user_id) \<and> \<not> task_running w user_id \<longrightarrow>
      spawned w (core_autoclaim_start user_id chat_id w) =
        [\<lparr>task_user = user_id, task_done = False\<rparr>]
      \<and> task_running (core_autoclaim_start user_id chat_id w) user_id
      \<and> is_active (load_user_data (core_autoclaim_start user_id chat_id w) user_id))
   \<and> (\<not> token_missing (get_auth_token w user_id) \<longrightarrow>
      core_autoclaim_start user_id chat_id (core_autoclaim_start user_id chat_id w) =
        send_message (core_autoclaim_start user_id chat_id w) chat_id R_already_active)
   \<and> (\<not> token_missing (get_auth_token w user_id) \<and> \<not> task_running w user_id
        \<and> live_tasks w user_id = [] \<longrightarrow>
      live_tasks (core_autoclaim_start user_id chat_id
                    (core_autoclaim_start user_id chat_id w)) user_id =
        [\<lparr>task_user = user_id, task_done = False\<rparr>])"
  using start_no_token [of w user_id chat_id] start_already [of w user_id chat_id]
    start_spawns [of w user_id chat_id] start_twice [of w user_id chat_id]
  by (auto simp add: send_message_keeps)

lemma ex_running: "task_running ex_world 7"
  by (simp add: ex_world_def registry_defs)

theorem start_idempotent_when_flagged_witness:
  "token_missing (get_auth_token ex_world 9)
   \<and> core_autoclaim_start 9 9 ex_world = send_message ex_world 9 R_start_token_not_set
   \<and> task_running ex_world 7
   \<and> core_autoclaim_start 7 7 ex_world = send_message ex_world 7 R_already_active
   \<and> live_tasks ex_world_idle 7 = []
   \<and> spawned ex_world_idle (core_autoclaim_start 7 7 ex_world_idle) =
        [\<lparr>task_user = 7, task_done = False\<rparr>]
   \<and> live_tasks (core_autoclaim_start 7 7 (core_autoclaim_start 7 7 ex_world_idle)) 7 =
        [\<lparr>task_user = 7, task_done = False\<rparr>]"
proof -
  have a: "token_missing (get_auth_token ex_world 9)"
    by (simp add: ex_defs store_defs empty_user_data_def)
  have b: "\<not> token_missing (get_auth_token ex_world_idle 7)"
    by (simp add: ex_world_idle_def ex_defs store_defs)
  have c: "\<not> task_running ex_world_idle 7"
    by (simp add: ex_world_idle_def ex_defs registry_defs)
  have d: "live_tasks ex_world_idle 7 = []"
    by (simp add: ex_world_idle_def ex_defs registry_defs)
  have e: "is_active (load_user_data ex_world 7)"
    by (simp add: ex_loaded ex_active)
  have "core_autoclaim_start 9 9 ex_world = send_message ex_world 9 R_start_token_not_set"
    using a start_idempotent_when_flagged [of ex_world 9 9] by blast
  moreover have "core_autoclaim_start 7 7 ex_world = send_message ex_world 7 R_already_active"
    using ex_token_present e ex_running start_idempotent_when_flagged [of ex_world 7 7]
    by blast
  moreover have "spawned ex_world_idle (core_autoclaim_start 7 7 ex_world_idle) =
        [\<lparr>task_user = 7, task_done = False\<rparr>]"
    using b c start_idempotent_when_flagged [of ex_world_idle 7 7] by blast
  moreover have
    "live_tasks (core_autoclaim_start 7 7 (core_autoclaim_start 7 7 ex_world_idle)) 7 =
        [\<lparr>task_user = 7, task_done = False\<rparr>]"
    using b c d start_idempotent_when_flagged [of ex_world_idle 7 7] by blast
  ultimately show ?thesis
    using a d ex_running by blast
qed

text \<open>
  C4, as the claim states it, fails: with a stored credential and a running registered
  task, but the flag absent from the user record, start creates a second task, and the
  user then has two live tasks.
\<close>

theorem start_spawns_beside_live_task_counterexample:
  "task_running ex_world_orphan 7
   \<and> \<not> token_missing (get_auth_token ex_world_orphan 7)
   \<and> spawned ex_world_orphan (core_autoclaim_start 7 7 ex_world_orphan) =
        [\<lparr>task_user = 7, task_done = False\<rparr>]
   \<and> length (live_tasks (core_autoclaim_start 7 7 ex_world_orphan) 7) = 2"
  by (simp add: ex_world_orphan_def ex_defs store_defs registry_defs core_autoclaim_start_def
      is_active_def save_user_data_def send_message_def Let_def)

lemma not_running_done:
  "\<not> task_running w u \<Longrightarrow> AUTO_CLAIM_TASKS w u = Some t \<Longrightarrow> task_is_done w t"
  by (simp add: task_running_def)

lemma stop_noop:
  "\<not> is_active (load_user_data w u) \<Longrightarrow> \<not> task_running w u \<Longrightarrow>
     core_autoclaim_stop u c w = send_message w c R_not_active"
  by (simp add: core_autoclaim_stop_def Let_def)

lemma stop_active:
  assumes "is_active (load_user_data w u) \<or> task_running w u"
  shows "AUTO_CLAIM_TASKS (core_autoclaim_stop u c w) u = None"
    and "auto_claim_active (load_user_data (core_autoclaim_stop u c w) u) = Some False"
    and "AUTO_CLAIM_TASKS w u = Some t \<Longrightarrow> task_is_done (core_autoclaim_stop u c w) t"
  using assms
  by (auto simp add: core_autoclaim_stop_def Let_def registry_defs deactivate_def
      save_user_data_def send_message_def load_user_data_def split: option.splits if_splits)

text \<open>
  C5. In the state stop returns, in whatever state it was called (the task may be
  suspended anywhere, in a remote call too), the user has no running registered task, the
  stored flag is not set, and the task that was registered is done. When the flag was
  set or the task was running, the registry entry is gone and the flag is stored as
  false; when neither was the case, stop only answers that auto-claim is not active.
\<close>

theorem stop_leaves_no_live_task:
  "\<not> task_running (core_autoclaim_stop user_id chat_id w) user_id
   \<and> \<not> is_active (load_user_data (core_autoclaim_stop user_id chat_id w) user_id)
   \<and> (\<forall>t. AUTO_CLAIM_TASKS w user_id = Some t \<longrightarrow>
          task_is_done (core_autoclaim_stop user_id chat_id w) t)
   \<and> (is_active (load_user_data w user_id) \<or> task_running w user_id \<longrightarrow>
        AUTO_CLAIM_TASKS (core_autoclaim_stop user_id chat_id w) user_id = None
        \<and> auto_claim_active (load_user_data (core_autoclaim_stop user_id chat_id w) user_id)
            = Some False)
   \<and> (\<not> is_active (load_user_data w user_id) \<and> \<not> task_running w user_id \<longrightarrow>
        core_autoclaim_stop user_id chat_id w = send_message w chat_id R_not_active)"
proof (cases "is_active (load_user_data w user_id) \<or> task_running w user_id")
  case True
  show ?thesis
    using True stop_active [OF True, where c = chat_id]
    by (auto simp add: task_running_def is_active_def)
next
  case False
  then have "core_autoclaim_stop user_id chat_id w = send_message w chat_id R_not_active"
    by (simp add: stop_noop)
  with False show ?thesis
    by (auto simp add: send_message_keeps not_running_done)
qed

theorem stop_leaves_no_live_task_witness:
  "task_running ex_world 7
   \<and> AUTO_CLAIM_TASKS ex_world 7 = Some 0
   \<and> \<not> task_running (core_autoclaim_stop 7 7 ex_world) 7
   \<and> task_is_done (core_autoclaim_stop 7 7 ex_world) 0
   \<and> AUTO_CLAIM_TASKS (core_autoclaim_stop 7 7 ex_world) 7 = None
   \<and> auto_claim_active (load_user_data (core_autoclaim_stop 7 7 ex_world) 7) = Some False
   \<and> core_autoclaim_stop 7 7 (core_autoclaim_stop 7 7 ex_world) =
        send_message (core_autoclaim_stop 7 7 ex_world) 7 R_not_active"
proof -
  have r: "AUTO_CLAIM_TASKS ex_world 7 = Some 0"
    by (simp add: ex_world_def)
  show ?thesis
    using ex_running r stop_leaves_no_live_task [of 7 7 ex_world]
      stop_leaves_no_live_task [of 7 7 "core_autoclaim_stop 7 7 ex_world"]
    by simp
qed

section \<open>Restart at boot: the tasks created\<close>

lemma digit_char_is_digit: "n < 10 \<Longrightarrow> is_digit_char (digit_char n)"
  by (simp add: is_digit_char_def digit_char_def)

lemma digit_char_value: "n < 10 \<Longrightarrow> (of_char (digit_char n) :: nat) - 48 = n"
  by (simp add: digit_char_def)

lemma str_nat_digits: "list_all is_digit_char (str_nat n)"
proof (induction n rule: str_nat.induct)
  case (1 n)
  show ?case
  proof (cases "n < 10")
    case True
    then show ?thesis by (subst str_nat.simps) (simp add: digit_char_is_digit)
  next
    case False
    then show ?thesis
      using 1 by (subst str_nat.simps) (simp add: digit_char_is_digit)
  qed
qed

lemma str_nat_nonempty: "str_nat n \<noteq> []"
  by (subst str_nat.simps) simp

lemma int_of_digits_snoc:
  "int_of_digits (s @ [c]) = 10 * int_of_digits s + (of_char c - 48)"
  by (simp add: int_of_digits_def)

lemma int_of_digits_str_nat: "int_of_digits (str_nat n) = n"
proof (induction n rule: str_nat.induct)
  case (1 n)
  show ?case
  proof (cases "n < 10")
    case True
    then show ?thesis
      by (subst str_nat.simps) (simp add: int_of_digits_def digit_char_value)
  next
    case False
    then have "int_of_digits (str_nat (n div 10)) = n div 10" using 1 by simp
    with False show ?thesis
      by (subst str_nat.simps) (simp add: int_of_digits_snoc digit_char_value)
  qed
qed

lemma is_digit_not_dot: "is_digit_char c \<Longrightarrow> c \<noteq> CHR ''.''"
  by (auto simp add: is_digit_char_def)

lemma split_dot_first_file: "split_dot_first (get_user_data_file u) = str_nat u"
proof -
  have "\<forall>c \<in> set (str_nat u). c \<noteq> CHR ''.''"
    using str_nat_digits [of u] by (auto simp add: list_all_iff is_digit_not_dot)
  then show ?thesis
    by (simp add: split_dot_first_def get_user_data_file_def)
qed

lemma endswith_file: "endswith (get_user_data_file u) ''.json''"
  by (simp add: endswith_def get_user_data_file_def)

lemma post_init_file_user:
  "post_init_file (get_user_data_file u) w =
     (if is_active (load_user_data w u) \<and> \<not> task_running w u
      then w\<lparr>tasks := tasks w @ [\<lparr>task_user = u, task_done = False\<rparr>],
             AUTO_CLAIM_TASKS := (AUTO_CLAIM_TASKS w)(u \<mapsto> length (tasks w))\<rparr>
      else w)"
  by (auto simp add: post_init_file_def endswith_file split_dot_first_file isdigit_def
      str_nat_nonempty str_nat_digits int_of_digits_str_nat Let_def create_task_def
      task_running_def split: option.splits)

lemma restart_keeps_others:
  fixes w :: world and u :: nat
  assumes "\<forall>v t. AUTO_CLAIM_TASKS w v = Some t \<longrightarrow> t < length (tasks w)"
  defines "w1 \<equiv> post_init_file (get_user_data_file u) w"
  shows "\<forall>v t. AUTO_CLAIM_TASKS w1 v = Some t \<longrightarrow> t < length (tasks w1)"
    and "load_user_data w1 v = load_user_data w v"
    and "v \<noteq> u \<Longrightarrow> task_running w1 v = task_running w v"
    and "is_active (load_user_data w u) \<Longrightarrow> task_running w1 u"
    and "tasks w1 = tasks w @
           (if is_active (load_user_data w u) \<and> \<not> task_running w u
            then [\<lparr>task_user = u, task_done = False\<rparr>] else [])"
proof -
  show "\<forall>v t. AUTO_CLAIM_TASKS w1 v = Some t \<longrightarrow> t < length (tasks w1)"
    using assms(1) by (auto simp add: w1_def post_init_file_user less_Suc_eq)
  show "load_user_data w1 v = load_user_data w v"
    by (simp add: w1_def post_init_file_user load_user_data_def)
  show "task_running w1 v = task_running w v" if "v \<noteq> u"
  proof (cases "AUTO_CLAIM_TASKS w v")
    case None
    with that show ?thesis
      by (simp add: w1_def post_init_file_user task_running_def)
  next
    case (Some t)
    then have "t < length (tasks w)" using assms(1) by blast
    with Some that show ?thesis
      by (simp add: w1_def post_init_file_user task_running_def task_is_done_def nth_append)
  qed
  show "task_running w1 u" if "is_active (load_user_data w u)"
  proof (cases "task_running w u")
    case True
    then show ?thesis by (simp add: w1_def post_init_file_user)
  next
    case False
    with that show ?thesis
      by (simp add: w1_def post_init_file_user task_running_def task_is_done_def)
  qed
  show "tasks w1 = tasks w @
           (if is_active (load_user_data w u) \<and> \<not> task_running w u
            then [\<lparr>task_user = u, task_done = False\<rparr>] else [])"
    by (simp add: w1_def post_init_file_user)
qed

lemma post_init_tasks:
  assumes "\<forall>v t. AUTO_CLAIM_TASKS w v = Some t \<longrightarrow> t < length (tasks w)"
      and "distinct us"
  shows "tasks (post_init (map get_user_data_file us) w) =
           tasks w @ map (\<lambda>u. \<lparr>task_user = u, task_done = False\<rparr>)
             (filter (\<lambda>u. is_active (load_user_data w u) \<and> \<not> task_running w u) us)"
  using assms
proof (induction us arbitrary: w)
  case Nil
  then show ?case by simp
next
  case (Cons u us)
  let ?w1 = "post_init_file (get_user_data_file u) w"
  note keep = restart_keeps_others [OF Cons.prems(1), where u = u]
  have d: "distinct us" and nu: "u \<notin> set us" using Cons.prems(2) by simp_all
  have ih: "tasks (post_init (map get_user_data_file us) ?w1) =
      tasks ?w1 @ map (\<lambda>u. \<lparr>task_user = u, task_done = False\<rparr>)
        (filter (\<lambda>v. is_active (load_user_data ?w1 v) \<and> \<not> task_running ?w1 v) us)"
    using Cons.IH [OF keep(1) d] .
  have same: "filter (\<lambda>v. is_active (load_user_data ?w1 v) \<and> \<not> task_running ?w1 v) us =
      filter (\<lambda>v. is_active (load_user_data w v) \<and> \<not> task_running w v) us"
  proof (rule filter_cong [OF refl])
    fix v assume "v \<in> set us"
    then have "v \<noteq> u" using nu by auto
    then show "(is_active (load_user_data ?w1 v) \<and> \<not> task_running ?w1 v) =
        (is_active (load_user_data w v) \<and> \<not> task_running w v)"
      using keep(2) [where v = v] keep(3) [where v = v] by simp
  qed
  show ?case
    using ih keep(5) by (simp add: same)
qed

lemma post_init_running:
  assumes "\<forall>v t. AUTO_CLAIM_TASKS w v = Some t \<longrightarrow> t < length (tasks w)"
      and "u \<in> set us" and "is_active (load_user_data w u)"
  shows "task_running (post_init (map get_user_data_file us) w) u"
  using assms
proof (induction us arbitrary: w)
  case Nil
  then show ?case by simp
next
  case (Cons a us)
  let ?w1 = "post_init_file (get_user_data_file a) w"
  note keep = restart_keeps_others [OF Cons.prems(1), where u = a]
  have act: "is_active (load_user_data ?w1 u)" using keep(2) [where v = u] Cons.prems(3) by simp
  show ?case
  proof (cases "u \<in> set us")
    case True
    then show ?thesis using Cons.IH [OF keep(1) True act] by simp
  next
    case False
    then have ua: "u = a" using Cons.prems(2) by simp
    have run: "task_running ?w1 u" using keep(4) Cons.prems(3) ua by simp
    have "task_running (post_init (map get_user_data_file us) w') u"
      if "\<forall>v t. AUTO_CLAIM_TASKS w' v = Some t \<longrightarrow> t < length (tasks w')" "task_running w' u"
        "u \<notin> set us" for w'
      using that
    proof (induction us arbitrary: w')
      case Nil
      then show ?case by simp
    next
      case (Cons b bs)
      note k = restart_keeps_others [OF Cons.prems(1), where u = b]
      have "u \<noteq> b" using Cons.prems(3) by simp
      then have "task_running (post_init_file (get_user_data_file b) w') u"
        using k(3) [where v = u] Cons.prems(2) by simp
      then show ?case using Cons.IH [OF k(1)] Cons.prems(3) by simp
    qed
    then show ?thesis using keep(1) run False by simp
  qed
qed

lemma count_in_distinct:
  "distinct xs \<Longrightarrow> length (filter (\<lambda>v. v = u) xs) = (if u \<in> set xs then 1 else 0)"
  by (induction xs) auto

text \<open>
  C8. Let the user-data directory hold the files of the distinct users \<open>us\<close>, and let every
  registered task be a created one. The tasks that \<^verbatim>\<open>post_init\<close> creates are, in the
  order of the listing, one for each user whose stored flag is set and who has no running
  registered task: exactly one for such a user, none for any other user; afterwards every
  listed user whose flag is set has a running registered task.
\<close>

theorem post_init_restarts_flagged_users:
  assumes "\<forall>v t. AUTO_CLAIM_TASKS w v = Some t \<longrightarrow> t < length (tasks w)"
      and "distinct us"
      and "w' = post_init (map get_user_data_file us) w"
  shows "spawned w w' =
           map (\<lambda>u. \<lparr>task_user = u, task_done = False\<rparr>)
             (filter (\<lambda>u. is_active (load_user_data w u) \<and> \<not> task_running w u) us)
       \<and> length (filter (\<lambda>t. task_user t = user_id) (spawned w w')) =
           (if user_id \<in> set us \<and> is_active (load_user_data w user_id)
               \<and> \<not> task_running w user_id then 1 else 0)
       \<and> (user_id \<in> set us \<and> is_active (load_user_data w user_id) \<longrightarrow>
            task_running w' user_id)"
proof -
  let ?P = "\<lambda>u. is_active (load_user_data w u) \<and> \<not> task_running w u"
  have sp: "spawned w w' = map (\<lambda>u. \<lparr>task_user = u, task_done = False\<rparr>) (filter ?P us)"
    using post_init_tasks [OF assms(1,2)] assms(3) by (simp add: spawned_def)
  have "length (filter (\<lambda>t. task_user t = user_id) (spawned w w')) =
      length (filter (\<lambda>v. v = user_id) (filter ?P us))"
    by (simp add: sp filter_map comp_def)
  also have "\<dots> = (if user_id \<in> set (filter ?P us) then 1 else 0)"
    using assms(2) by (intro count_in_distinct) simp
  finally have cnt: "length (filter (\<lambda>t. task_user t = user_id) (spawned w w')) =
      (if user_id \<in> set us \<and> ?P user_id then 1 else 0)"
    by simp
  show ?thesis
    using sp cnt post_init_running [OF assms(1), of user_id us] assms(3) by simp
qed

theorem post_init_restarts_flagged_users_witness:
  "spawned ex_world_boot (post_init (map get_user_data_file [7, 8, 9]) ex_world_boot) =
     [\<lparr>task_user = 7, task_done = False\<rparr>, \<lparr>task_user = 8, task_done = False\<rparr>]
   \<and> length (filter (\<lambda>t. task_user t = 9)
        (spawned ex_world_boot (post_init (map get_user_data_file [7, 8, 9]) ex_world_boot))) = 0
   \<and> task_running (post_init (map get_user_data_file [7, 8, 9]) ex_world_boot) 7"
proof -
  have h1: "\<forall>v t. AUTO_CLAIM_TASKS ex_world_boot v = Some t \<longrightarrow> t < length (tasks ex_world_boot)"
    by (simp add: ex_world_boot_def)
  have h2: "distinct [7, 8, 9 :: nat]" by simp
  have a: "is_active (load_user_data ex_world_boot 7)" "is_active (load_user_data ex_world_boot 8)"
    "\<not> is_active (load_user_data ex_world_boot 9)"
    by (simp_all add: ex_world_boot_def ex_user_data_def load_user_data_def is_active_def)
  have r: "\<And>u. \<not> task_running ex_world_boot u"
    by (simp add: ex_world_boot_def task_running_def)
  show ?thesis
    using post_init_restarts_flagged_users [OF h1 h2 refl, of 9]
      post_init_restarts_flagged_users [OF h1 h2 refl, of 7]
    by (simp add: a r)
qed

end
